theory Spec2Isabelle
  imports Main
begin

section \<open>JavaScript values, strings and errors\<close>

text \<open>
  Strings are character lists, a character standing for one code unit (\<open>atob\<close>
  rejects every code unit outside its alphabet, so wider code units behave as any other
  rejected character). The values that travel through the page script and the
  worker (parsed JSON, message data, arguments such as \<open>referrer\<close>) are JavaScript
  values; objects keep their properties in insertion order, a later binding of a key
  overriding an earlier one.
\<close>

datatype js_error =
    InvalidCharacterError
  | TypeError
  | SyntaxError
  | NetworkError
  | NotAllowedError

fun error_text :: "js_error \<Rightarrow> string" where
  "error_text InvalidCharacterError = ''InvalidCharacterError''"
| "error_text TypeError = ''TypeError''"
| "error_text SyntaxError = ''SyntaxError''"
| "error_text NetworkError = ''TypeError: Failed to fetch''"
| "error_text NotAllowedError = ''NotAllowedError''"

datatype jsval =
    JUndefined
  | JNull
  | JBool bool
  | JNum int
  | JNaN
  | JStr string
  | JArr "jsval list"
  | JObj "(string \<times> jsval) list"

text \<open>Truthiness, as tested by \<open>if (v)\<close>, \<open>a || b\<close> and \<open>a && b\<close>.\<close>

fun truthy :: "jsval \<Rightarrow> bool" where
  "truthy JUndefined = False"
| "truthy JNull = False"
| "truthy (JBool b) = b"
| "truthy (JNum n) = (n \<noteq> 0)"
| "truthy JNaN = False"
| "truthy (JStr s) = (s \<noteq> [])"
| "truthy (JArr _) = True"
| "truthy (JObj _) = True"

definition js_or :: "jsval \<Rightarrow> jsval \<Rightarrow> jsval" where
  "js_or a b = (if truthy a then a else b)"

text \<open>
  Property read \<open>v.name\<close>, for the property names the programs read (\<open>publicKey\<close>,
  \<open>endpoint\<close>, \<open>title\<close>, \<open>body\<close>, \<open>icon\<close>, \<open>badge\<close>, \<open>tag\<close>, \<open>url\<close>,
  \<open>timestamp\<close>, \<open>type\<close>, \<open>referrer\<close>, \<open>data\<close>): none of them is on a
  prototype, so a primitive or an array yields \<open>undefined\<close>; reading from \<open>null\<close> or
  \<open>undefined\<close> throws a TypeError.
\<close>

fun get_prop :: "jsval \<Rightarrow> string \<Rightarrow> js_error + jsval" where
  "get_prop JUndefined name = Inl TypeError"
| "get_prop JNull name = Inl TypeError"
| "get_prop (JObj kvs) name =
     Inr (case map_of (rev kvs) name of None \<Rightarrow> JUndefined | Some v \<Rightarrow> v)"
| "get_prop v name = Inr JUndefined"

fun startsWith :: "string \<Rightarrow> string \<Rightarrow> bool" where
  "startsWith s [] = True"
| "startsWith [] (p # ps) = False"
| "startsWith (c # cs) (p # ps) = (c = p \<and> startsWith cs ps)"

definition endsWith :: "string \<Rightarrow> string \<Rightarrow> bool" where
  "endsWith s p = startsWith (rev s) (rev p)"

fun str_includes :: "string \<Rightarrow> string \<Rightarrow> bool" where
  "str_includes [] p = (p = [])"
| "str_includes (c # cs) p = (startsWith (c # cs) p \<or> str_includes cs p)"

section \<open>Key codec: \<open>urlBase64ToUint8Array\<close>\<close>

text \<open>
  \<open>window.atob\<close> is the platform's forgiving base64 decoder: it removes ASCII
  whitespace, removes one or two trailing \<open>=\<close> when the length is a multiple of four,
  rejects a length that is one more than a multiple of four and any character outside
  the base64 alphabet, and turns each group of four characters into three bytes; a
  trailing group of two gives one byte and a trailing group of three gives two.
  Its result is a binary string: one character per byte.
\<close>

definition is_ascii_whitespace :: "char \<Rightarrow> bool" where
  "is_ascii_whitespace c \<longleftrightarrow>
     c = CHR 0x09 \<or> c = CHR 0x0A \<or> c = CHR 0x0C \<or> c = CHR 0x0D \<or> c = CHR 0x20"

definition base64_alphabet :: string where
  "base64_alphabet =
     ''ABCDEFGHIJKLMNOPQRSTUVWXYZabcdefghijklmnopqrstuvwxyz0123456789+/''"

fun index_of :: "'a \<Rightarrow> 'a list \<Rightarrow> nat option" where
  "index_of x [] = None"
| "index_of x (y # ys) = (if x = y then Some 0 else map_option Suc (index_of x ys))"

definition sextet_of :: "char \<Rightarrow> nat option" where
  "sextet_of c = index_of c base64_alphabet"

definition remove_trailing_equals :: "string \<Rightarrow> string" where
  "remove_trailing_equals d =
     (if d \<noteq> [] \<and> last d = CHR ''=''
      then (let d1 = butlast d
            in if d1 \<noteq> [] \<and> last d1 = CHR ''='' then butlast d1 else d1)
      else d)"

fun sextets_to_bytes :: "nat list \<Rightarrow> nat list" where
  "sextets_to_bytes (a # b # c # d # rest) =
     (a * 4 + b div 16) # ((b mod 16) * 16 + c div 4) # ((c mod 4) * 64 + d)
       # sextets_to_bytes rest"
| "sextets_to_bytes [a, b, c] = [a * 4 + b div 16, (b mod 16) * 16 + c div 4]"
| "sextets_to_bytes [a, b] = [a * 4 + b div 16]"
| "sextets_to_bytes _ = []"

definition atob :: "string \<Rightarrow> js_error + string" where
  "atob s =
     (let d0 = filter (\<lambda>c. \<not> is_ascii_whitespace c) s;
          d = (if length d0 mod 4 = 0 then remove_trailing_equals d0 else d0)
      in if length d mod 4 = 1 then Inl InvalidCharacterError
         else (case those (map sextet_of d) of
                 None \<Rightarrow> Inl InvalidCharacterError
               | Some vs \<Rightarrow> Inr (map char_of (sextets_to_bytes vs))))"

text \<open>\<open>s.replace(/a/g, b)\<close> for a single character \<open>a\<close>.\<close>

definition replace_all :: "char \<Rightarrow> char \<Rightarrow> string \<Rightarrow> string" where
  "replace_all a b s = map (\<lambda>c. if c = a then b else c) s"

text \<open>
  The copying loop \<open>for (let i = 0; i < rawData.length; ++i) outputArray[i] =
  rawData.charCodeAt(i)\<close> over a zero-filled array of the same length.
\<close>

function fill_codes :: "nat \<Rightarrow> string \<Rightarrow> nat list \<Rightarrow> nat list" where
  "fill_codes i rawData outputArray =
     (if i < length rawData
      then fill_codes (Suc i) rawData (outputArray[i := of_char (rawData ! i)])
      else outputArray)"
  by pat_completeness auto
termination
  by (relation "measure (\<lambda>(i, rawData, outputArray). length rawData - i)") auto

declare fill_codes.simps [simp del]

definition base64_padding :: "string \<Rightarrow> string" where
  "base64_padding base64String =
     replicate ((4 - length base64String mod 4) mod 4) CHR ''=''"

definition urlBase64ToUint8Array :: "string \<Rightarrow> js_error + nat list" where
  "urlBase64ToUint8Array base64String =
     (let padding = base64_padding base64String;
          base64 = replace_all CHR ''_'' CHR ''/''
                     (replace_all CHR ''-'' CHR ''+'' (base64String @ padding))
      in case atob base64 of
           Inl e \<Rightarrow> Inl e
         | Inr rawData \<Rightarrow> Inr (fill_codes 0 rawData (replicate (length rawData) 0)))"

text \<open>
  The encoder the round trip is measured against: bytes to base64 with the URL
  alphabet (\<open>-\<close> and \<open>_\<close> for 62 and 63), without padding or padded with \<open>=\<close> to a
  multiple of four characters.
\<close>

definition base64url_alphabet :: string where
  "base64url_alphabet =
     ''ABCDEFGHIJKLMNOPQRSTUVWXYZabcdefghijklmnopqrstuvwxyz0123456789-_''"

fun bytes_to_sextets :: "nat list \<Rightarrow> nat list" where
  "bytes_to_sextets (a # b # c # rest) =
     (a div 4) # ((a mod 4) * 16 + b div 16) # ((b mod 16) * 4 + c div 64) # (c mod 64)
       # bytes_to_sextets rest"
| "bytes_to_sextets [a, b] = [a div 4, (a mod 4) * 16 + b div 16, (b mod 16) * 4]"
| "bytes_to_sextets [a] = [a div 4, (a mod 4) * 16]"
| "bytes_to_sextets [] = []"

definition base64url_encode :: "nat list \<Rightarrow> string" where
  "base64url_encode bs = map (\<lambda>v. base64url_alphabet ! v) (bytes_to_sextets bs)"

definition base64url_encode_padded :: "nat list \<Rightarrow> string" where
  "base64url_encode_padded bs =
     base64url_encode bs @ base64_padding (base64url_encode bs)"

definition is_byte_list :: "nat list \<Rightarrow> bool" where
  "is_byte_list bs = list_all (\<lambda>b. b < 256) bs"

section \<open>The browser: platform, state and effects\<close>

definition VERSION :: string where
  "VERSION = ''v1''"

definition SERVER_URL :: string where
  "SERVER_URL = ''https://vercel-server-1v1v.onrender.com''"

text \<open>\<open>new URL(SERVER_URL).hostname\<close>.\<close>

definition SERVER_HOSTNAME :: string where
  "SERVER_HOSTNAME = ''vercel-server-1v1v.onrender.com''"

text \<open>The bucket name \<open>`static-cache-${VERSION}`\<close>.\<close>

definition static_cache_name :: string where
  "static_cache_name = ''static-cache-'' @ VERSION"

record subscription =
  endpoint :: string
  p256dh :: string
  auth :: string

text \<open>What \<open>JSON.stringify\<close> sees of a push subscription (its \<open>toJSON\<close>).\<close>

definition subscription_json :: "subscription \<Rightarrow> jsval" where
  "subscription_json s =
     JObj [(''endpoint'', JStr (endpoint s)), (''expirationTime'', JNull),
           (''keys'', JObj [(''p256dh'', JStr (p256dh s)), (''auth'', JStr (auth s))])]"

record response =
  resp_status :: nat
  resp_body :: string

record client =
  client_id :: nat
  client_url :: string

text \<open>
  The request of a fetch event, with the parts \<open>new URL(event.request.url)\<close> gives.
\<close>

record request =
  req_url :: string
  req_origin :: string
  req_hostname :: string
  req_pathname :: string
  req_method :: string
  req_mode :: string
  req_referrer :: string

record notification =
  notif_tag :: string
  notif_data :: jsval

text \<open>
  Everything the two programs do to the world outside them is recorded, in program
  order, in a trace. \<open>ApiFetch method url body\<close> is a \<open>fetch\<close> of a server endpoint,
  \<open>body\<close> being the object given to \<open>JSON.stringify\<close>; \<open>NetworkFetch\<close> is the
  worker's \<open>fetch(event.request)\<close>.
\<close>

datatype effect =
    ConsoleLog string
  | PageLog string
  | SetStatus string
  | PostMessage client jsval
  | ApiFetch string string "jsval option"
  | NetworkFetch request
  | PushSubscribe bool "nat list"
  | ShowNotification jsval jsval
  | RespondWith response
  | RespondError js_error
  | Uncaught js_error
  | SkipWaiting
  | ClientsClaim
  | RegisterWorker string string
  | CloseNotification
  | FocusClient client
  | OpenWindow jsval

text \<open>
  What the platform decides: capabilities, the JSON codec, the network, the push
  service, the page's location and the clock.
\<close>

record platform =
  has_serviceWorker :: bool
  has_PushManager :: bool
  has_Notification :: bool
  has_log_element :: bool
  has_status_element :: bool
  json_parse :: "string \<Rightarrow> js_error + jsval"
  json_stringify :: "jsval \<Rightarrow> string"
  network :: "string \<Rightarrow> string \<Rightarrow> js_error + response"
  push_subscribe :: "nat list \<Rightarrow> js_error + subscription"
  register_worker :: "js_error + string"
  request_permission :: string
  document_referrer :: string
  userAgent :: string
  location_href :: string
  location_origin :: string
  worker_origin :: string
  now_iso :: string
  controlled_clients :: "client list"
  window_clients :: "client list"
  can_openWindow :: bool

text \<open>
  What the programs change: the push subscriptions of the browser profile (the
  platform adds one on a successful \<open>subscribe\<close>), the page's local storage, the
  cache buckets (name and entries keyed by request URL, in creation order) and the trace.
\<close>

record browser =
  subscriptions :: "subscription list"
  localStorage :: "string \<rightharpoonup> string"
  cacheStorage :: "(string \<times> (string \<times> response) list) list"
  trace :: "effect list"

text \<open>
  Modelling conventions. Each handler is modelled as running to completion: its
  asynchronous steps are listed in the order the program starts them, and no other
  handler runs in between. The one place where two handlers in flight together are
  needed is the subscription, which \<open>subscribeUserToPush\<close> reads and writes across an
  \<open>await\<close>; \<open>subscribe_read\<close> and \<open>subscribe_write\<close> below cut the call there.
  The platform calls that the programs await are taken to settle:
  \<open>navigator.serviceWorker.ready\<close> resolves, \<open>getSubscription\<close> resolves with the
  profile's subscription or \<open>null\<close>, \<open>localStorage.setItem\<close> and \<open>cache.put\<close> store
  what they are given, and every window client can be focused. The network, the push
  service's \<open>subscribe\<close>, the worker registration and the JSON codec may fail, and the
  model follows the program's handling of each failure.
\<close>

definition emit :: "effect \<Rightarrow> browser \<Rightarrow> browser" where
  "emit e B = B\<lparr>trace := trace B @ [e]\<rparr>"

text \<open>\<open>fetch(url, {method, ...})\<close> followed by \<open>response.json()\<close>: either may reject.\<close>

definition api_fetch :: "platform \<Rightarrow> string \<Rightarrow> string \<Rightarrow> js_error + jsval" where
  "api_fetch P m u =
     (case network P m u of Inl e \<Rightarrow> Inl e | Inr r \<Rightarrow> json_parse P (resp_body r))"

text \<open>\<open>pushManager.getSubscription()\<close>: the existing subscription or \<open>null\<close>.\<close>

definition getSubscription :: "browser \<Rightarrow> subscription option" where
  "getSubscription B = (case subscriptions B of [] \<Rightarrow> None | s # _ \<Rightarrow> Some s)"

section \<open>The page script\<close>

definition log :: "platform \<Rightarrow> string \<Rightarrow> browser \<Rightarrow> browser" where
  "log P message B =
     (if has_log_element P then emit (PageLog (now_iso P @ '': '' @ message)) B else B)"

definition hardcoded_vapid_key :: string where
  "hardcoded_vapid_key =
     ''BG1NfrHDgwEIxe4ACqecfs0wB0T2v1DaTE45MgzZU4bovjnGKww8eSv-R8r68W_LmV3WTIzccK01C2FCwM55CLQ''"

definition sendSubscriptionToServer :: "platform \<Rightarrow> subscription \<Rightarrow> browser \<Rightarrow> browser" where
  "sendSubscriptionToServer P sub B =
     (let body = JObj [(''subscription'', subscription_json sub),
                       (''origin'', JStr (location_origin P)),
                       (''url'', JStr (location_href P))];
          B1 = emit (ApiFetch ''POST'' (SERVER_URL @ ''/subscribe'') (Some body)) B
      in case api_fetch P ''POST'' (SERVER_URL @ ''/subscribe'') of
           Inr data \<Rightarrow> log P (''Subscription sent to server: '' @ json_stringify P data) B1
         | Inl error \<Rightarrow>
             log P (''Error sending subscription to server: '' @ error_text error) B1)"

text \<open>
  The inner \<open>try\<close> of \<open>subscribeUserToPush\<close> yields the key from the server
  unless the request, the JSON parse, the property read or \<open>vapidPublicKey.substring\<close>
  throws (anything but a string has no \<open>substring\<close>); the \<open>catch\<close> then takes the
  hardcoded key.
\<close>

definition server_vapid_key :: "platform \<Rightarrow> string option" where
  "server_vapid_key P =
     (case api_fetch P ''GET'' (SERVER_URL @ ''/vapidPublicKey'') of
        Inl error \<Rightarrow> None
      | Inr data \<Rightarrow>
          (case get_prop data ''publicKey'' of
             Inr (JStr vapidPublicKey) \<Rightarrow> Some vapidPublicKey
           | _ \<Rightarrow> None))"

definition fetch_vapid_key :: "platform \<Rightarrow> browser \<Rightarrow> string \<times> browser" where
  "fetch_vapid_key P B =
     (let B1 = emit (ApiFetch ''GET'' (SERVER_URL @ ''/vapidPublicKey'') None) B
      in case server_vapid_key P of
           Some vapidPublicKey \<Rightarrow>
             (vapidPublicKey,
              log P (''Received VAPID public key from server: ''
                       @ take 10 vapidPublicKey @ ''...'') B1)
         | None \<Rightarrow>
             (hardcoded_vapid_key,
              log P (''Using hardcoded VAPID public key: ''
                       @ take 10 hardcoded_vapid_key @ ''...'') B1))"

text \<open>The tail of \<open>subscribeUserToPush\<close>, common to both branches.\<close>

definition report_and_save ::
  "platform \<Rightarrow> subscription \<Rightarrow> browser \<Rightarrow> subscription option \<times> browser" where
  "report_and_save P sub B =
     (let B1 = sendSubscriptionToServer P sub B;
          B2 = B1\<lparr>localStorage := (localStorage B1)
                  (''pushSubscription'' \<mapsto> json_stringify P (subscription_json sub))\<rparr>
      in (Some sub, B2))"

definition subscribeUserToPush :: "platform \<Rightarrow> browser \<Rightarrow> subscription option \<times> browser" where
  "subscribeUserToPush P B =
     (if \<not> has_serviceWorker P \<or> \<not> has_PushManager P
      then (None, log P ''Push notifications not supported'' B)
      else
        let B1 = log P ''Service worker is ready for push subscription'' B;
            (vapidPublicKey, B2) = fetch_vapid_key P B1
        in case urlBase64ToUint8Array vapidPublicKey of
             Inl error \<Rightarrow> (None, log P (''Error subscribing to push: '' @ error_text error) B2)
           | Inr applicationServerKey \<Rightarrow>
               (case getSubscription B2 of
                  Some sub \<Rightarrow>
                    report_and_save P sub
                      (log P ''User already subscribed to push notifications'' B2)
                | None \<Rightarrow>
                    let B3 = emit (PushSubscribe True applicationServerKey) B2
                    in case push_subscribe P applicationServerKey of
                         Inl error \<Rightarrow>
                           (None, log P (''Error subscribing to push: '' @ error_text error) B3)
                       | Inr sub \<Rightarrow>
                           report_and_save P sub
                             (log P ''User subscribed to push notifications''
                                (B3\<lparr>subscriptions := subscriptions B3 @ [sub]\<rparr>))))"




text \<open>
  The first half of the page's \<open>logNavigationToServer\<close>: the endpoint read from local
  storage, \<open>'not-subscribed'\<close> when the stored string is missing or empty.
\<close>

definition stored_endpoint :: "platform \<Rightarrow> browser \<Rightarrow> js_error + jsval" where
  "stored_endpoint P B =
     (case localStorage B ''pushSubscription'' of
        None \<Rightarrow> Inr (JStr ''not-subscribed'')
      | Some subscriptionString \<Rightarrow>
          if subscriptionString = [] then Inr (JStr ''not-subscribed'')
          else (case json_parse P subscriptionString of
                  Inl e \<Rightarrow> Inl e
                | Inr subscription \<Rightarrow> get_prop subscription ''endpoint''))"

definition page_navigation_body :: "platform \<Rightarrow> jsval \<Rightarrow> jsval \<Rightarrow> jsval \<Rightarrow> jsval" where
  "page_navigation_body P url referrer subscriptionEndpoint =
     JObj [(''url'', url),
           (''referrer'', js_or referrer (JStr (document_referrer P))),
           (''userAgent'', JStr (userAgent P)),
           (''subscriptionEndpoint'', subscriptionEndpoint)]"

definition logNavigationToServer :: "platform \<Rightarrow> jsval \<Rightarrow> jsval \<Rightarrow> browser \<Rightarrow> browser" where
  "logNavigationToServer P url referrer B =
     (case stored_endpoint P B of
        Inl error \<Rightarrow> log P (''Error logging navigation to server: '' @ error_text error) B
      | Inr subscriptionEndpoint \<Rightarrow>
          let B1 = emit (ApiFetch ''POST'' (SERVER_URL @ ''/log-navigation'')
                      (Some (page_navigation_body P url referrer subscriptionEndpoint))) B
          in case api_fetch P ''POST'' (SERVER_URL @ ''/log-navigation'') of
               Inr data \<Rightarrow>
                 log P (''Navigation logged to server: '' @ json_stringify P data) B1
             | Inl error \<Rightarrow>
                 log P (''Error logging navigation to server: '' @ error_text error) B1)"









section \<open>The service worker\<close>

definition swLog :: "platform \<Rightarrow> string \<Rightarrow> browser \<Rightarrow> browser" where
  "swLog P message B =
     fold (\<lambda>client. emit (PostMessage client
                              (JObj [(''type'', JStr ''log''), (''message'', JStr message)])))
       (controlled_clients P)
       (emit (ConsoleLog (''[Service Worker '' @ VERSION @ ''] '' @ message)) B)"

definition sw_navigation_body :: "platform \<Rightarrow> jsval \<Rightarrow> jsval \<Rightarrow> jsval \<Rightarrow> jsval" where
  "sw_navigation_body P url referrer subscriptionEndpoint =
     JObj [(''url'', url),
           (''referrer'', js_or referrer (JStr ''unknown'')),
           (''userAgent'', JStr ''service-worker''),
           (''subscriptionEndpoint'', subscriptionEndpoint),
           (''timestamp'', JStr (now_iso P))]"

text \<open>The worker's own \<open>logNavigationToServer\<close>; no caller uses what it returns.\<close>

definition sw_logNavigationToServer ::
  "platform \<Rightarrow> jsval \<Rightarrow> jsval \<Rightarrow> browser \<Rightarrow> browser" where
  "sw_logNavigationToServer P url referrer B =
     (let subscriptionEndpoint =
            (case getSubscription B of
               Some subscriptionData \<Rightarrow> JStr (endpoint subscriptionData)
             | None \<Rightarrow> JStr ''not-available-in-sw'');
          B1 = emit (ApiFetch ''POST'' (SERVER_URL @ ''/log-navigation'')
                 (Some (sw_navigation_body P url referrer subscriptionEndpoint))) B
      in case api_fetch P ''POST'' (SERVER_URL @ ''/log-navigation'') of
           Inr result \<Rightarrow>
             swLog P (''Navigation logged to server: '' @ json_stringify P result) B1
         | Inl error \<Rightarrow>
             swLog P (''Error logging navigation to server: '' @ error_text error) B1)"

subsection \<open>Cache storage\<close>

definition caches_keys :: "browser \<Rightarrow> string list" where
  "caches_keys B = map fst (cacheStorage B)"

definition caches_open :: "string \<Rightarrow> browser \<Rightarrow> browser" where
  "caches_open name B =
     (if name \<in> set (caches_keys B) then B
      else B\<lparr>cacheStorage := cacheStorage B @ [(name, [])]\<rparr>)"

definition caches_delete :: "string \<Rightarrow> browser \<Rightarrow> browser" where
  "caches_delete name B =
     B\<lparr>cacheStorage := filter (\<lambda>(n, entries). n \<noteq> name) (cacheStorage B)\<rparr>"

definition entries_put ::
  "string \<Rightarrow> response \<Rightarrow> (string \<times> response) list \<Rightarrow> (string \<times> response) list" where
  "entries_put u r entries = filter (\<lambda>(k, v). k \<noteq> u) entries @ [(u, r)]"

definition cache_put :: "string \<Rightarrow> string \<Rightarrow> response \<Rightarrow> browser \<Rightarrow> browser" where
  "cache_put name u r B =
     (let B1 = caches_open name B
      in B1\<lparr>cacheStorage :=
              map (\<lambda>(n, entries). if n = name then (n, entries_put u r entries)
                                 else (n, entries))
                (cacheStorage B1)\<rparr>)"

text \<open>
  \<open>caches.match(request)\<close>: the first bucket, in creation order, with an entry for
  the request's URL; only a \<open>GET\<close> request matches.
\<close>

fun first_entry :: "(string \<times> (string \<times> response) list) list \<Rightarrow> string \<Rightarrow> response option" where
  "first_entry [] u = None"
| "first_entry ((n, entries) # buckets) u =
     (case map_of entries u of Some r \<Rightarrow> Some r | None \<Rightarrow> first_entry buckets u)"

definition caches_match :: "request \<Rightarrow> browser \<Rightarrow> response option" where
  "caches_match r B =
     (if req_method r \<noteq> ''GET'' then None else first_entry (cacheStorage B) (req_url r))"

subsection \<open>Install and activate\<close>




definition is_old_cache :: "string \<Rightarrow> bool" where
  "is_old_cache cacheName \<longleftrightarrow>
     startsWith cacheName ''static-cache-'' \<and> cacheName \<noteq> ''static-cache-'' @ VERSION"

definition sw_activate :: "platform \<Rightarrow> browser \<Rightarrow> browser" where
  "sw_activate P B =
     (let B1 = swLog P ''Activating Service Worker'' B;
          cacheNames = caches_keys B1;
          B2 = fold (\<lambda>cacheName B'. caches_delete cacheName
                        (swLog P (''Deleting old cache: '' @ cacheName) B'))
                 (filter is_old_cache cacheNames) B1
      in emit ClientsClaim (swLog P ''Service Worker activated'' B2))"

subsection \<open>Fetch\<close>

definition is_tracked_navigation :: "request \<Rightarrow> bool" where
  "is_tracked_navigation r \<longleftrightarrow>
     endsWith (req_hostname r) ''vercel.app'' \<and> req_method r = ''GET''
       \<and> req_mode r = ''navigate''"

definition navigation_message :: "request \<Rightarrow> jsval" where
  "navigation_message r =
     JObj [(''type'', JStr ''navigation''),
           (''url'', JStr (req_url r)),
           (''referrer'', js_or (JStr (req_referrer r)) (JStr ''unknown''))]"

text \<open>The first part of the fetch listener: logging and navigation tracking.\<close>

definition track_fetch :: "platform \<Rightarrow> request \<Rightarrow> browser \<Rightarrow> browser" where
  "track_fetch P r B =
     (let B1 = (if \<not> str_includes (req_pathname r) ''/log-navigation''
                   \<and> \<not> str_includes (req_pathname r) ''/subscribe''
                then swLog P (''Fetch event: '' @ req_pathname r) B else B)
      in if is_tracked_navigation r
         then let B2 = swLog P (''Vercel app navigation detected: '' @ req_url r) B1;
                  B3 = fold (\<lambda>client. emit (PostMessage client (navigation_message r)))
                         (controlled_clients P) B2
              in sw_logNavigationToServer P (JStr (req_url r)) (JStr (req_referrer r)) B3
         else B1)"

definition skips_caching :: "request \<Rightarrow> bool" where
  "skips_caching r \<longleftrightarrow>
     req_method r \<noteq> ''GET'' \<or> str_includes (req_pathname r) ''/api/''
       \<or> req_hostname r = SERVER_HOSTNAME"

text \<open>The second part: \<open>event.respondWith\<close>, cache first and network second.\<close>

definition respond_fetch :: "platform \<Rightarrow> request \<Rightarrow> browser \<Rightarrow> browser" where
  "respond_fetch P r B =
     (case caches_match r B of
        Some response \<Rightarrow> emit (RespondWith response) B
      | None \<Rightarrow>
          let B1 = emit (NetworkFetch r) B
          in case network P (req_method r) (req_url r) of
               Inl e \<Rightarrow> emit (RespondError e) B1
             | Inr networkResponse \<Rightarrow>
                 if skips_caching r then emit (RespondWith networkResponse) B1
                 else emit (RespondWith networkResponse)
                        (cache_put static_cache_name (req_url r) networkResponse B1))"

definition sw_fetch :: "platform \<Rightarrow> request \<Rightarrow> browser \<Rightarrow> browser" where
  "sw_fetch P r B = respond_fetch P r (track_fetch P r B)"

subsection \<open>Push, notification click, messages\<close>

text \<open>\<open>v.name || d\<close>.\<close>

definition prop_or :: "jsval \<Rightarrow> string \<Rightarrow> jsval \<Rightarrow> js_error + jsval" where
  "prop_or v name d = (case get_prop v name of Inl e \<Rightarrow> Inl e | Inr x \<Rightarrow> Inr (js_or x d))"

definition notification_options :: "platform \<Rightarrow> jsval \<Rightarrow> js_error + jsval \<times> jsval" where
  "notification_options P notificationData =
     (case prop_or notificationData ''title'' (JStr ''Navigation Tracker'') of
        Inl e \<Rightarrow> Inl e | Inr title \<Rightarrow>
      case prop_or notificationData ''body'' (JStr ''A new event was detected.'') of
        Inl e \<Rightarrow> Inl e | Inr body \<Rightarrow>
      case prop_or notificationData ''icon'' (JStr ''/icon-192x192.png'') of
        Inl e \<Rightarrow> Inl e | Inr icon \<Rightarrow>
      case prop_or notificationData ''badge'' (JStr ''/badge.png'') of
        Inl e \<Rightarrow> Inl e | Inr badge \<Rightarrow>
      case prop_or notificationData ''tag'' (JStr ''default'') of
        Inl e \<Rightarrow> Inl e | Inr tag \<Rightarrow>
      case prop_or notificationData ''url'' (JStr ''/'') of
        Inl e \<Rightarrow> Inl e | Inr url \<Rightarrow>
      case prop_or notificationData ''timestamp'' (JStr (now_iso P)) of
        Inl e \<Rightarrow> Inl e | Inr timestamp \<Rightarrow>
      Inr (title,
           JObj [(''body'', body), (''icon'', icon), (''badge'', badge), (''tag'', tag),
                 (''data'', JObj [(''url'', url), (''timestamp'', timestamp)])]))"

text \<open>
  The \<open>try\<close> block of the push listener: \<open>event.data\<close> is \<open>null\<close>, or carries a
  payload for which \<open>event.data.json()\<close> throws or returns the parsed value.
\<close>

definition parse_push_data ::
  "platform \<Rightarrow> (js_error + jsval) option \<Rightarrow> browser \<Rightarrow> jsval \<times> browser" where
  "parse_push_data P data B =
     (case data of
        None \<Rightarrow> (JObj [], B)
      | Some payload \<Rightarrow>
          (case payload of
             Inr notificationData \<Rightarrow>
               (notificationData,
                swLog P (''Push data: '' @ json_stringify P notificationData) B)
           | Inl error \<Rightarrow>
               (JObj [], swLog P (''Error parsing push data: '' @ error_text error) B)))"

definition sw_push :: "platform \<Rightarrow> (js_error + jsval) option \<Rightarrow> browser \<Rightarrow> browser" where
  "sw_push P data B =
     (let (notificationData, B1) = parse_push_data P data (swLog P ''Push event received'' B)
      in case notification_options P notificationData of
           Inl e \<Rightarrow> emit (Uncaught e) B1
         | Inr (title, options) \<Rightarrow> emit (ShowNotification title options) B1)"






section \<open>Operations\<close>

text \<open>
  Every event either program handles, with what the event carries. \<open>run\<close> executes
  the handler of one event to completion.
\<close>

datatype operation =
    PageLoaded
  | PermissionClick
  | DocumentClick "(string \<times> string) list"
  | PageMessage jsval
  | BeforeUnload
  | PopState
  | Install
  | Activate
  | Fetch request
  | Push "(js_error + jsval) option"
  | NotificationClick notification
  | WorkerMessage jsval
  | ClientsChanged


section \<open>Observing a run\<close>

text \<open>The effects an operation added to the trace.\<close>

definition effects_of :: "browser \<Rightarrow> browser \<Rightarrow> effect list" where
  "effects_of B B' = drop (length (trace B)) (trace B')"

text \<open>The bodies posted to \<open>/log-navigation\<close>, and a property of each.\<close>

fun navigation_posts :: "effect list \<Rightarrow> jsval list" where
  "navigation_posts [] = []"
| "navigation_posts (ApiFetch m u (Some body) # es) =
     (if m = ''POST'' \<and> u = SERVER_URL @ ''/log-navigation''
      then body # navigation_posts es else navigation_posts es)"
| "navigation_posts (e # es) = navigation_posts es"

definition posted_field :: "string \<Rightarrow> effect list \<Rightarrow> (js_error + jsval) list" where
  "posted_field name es = map (\<lambda>body. get_prop body name) (navigation_posts es)"

text \<open>The worker's network fetches of intercepted requests.\<close>

fun network_fetches :: "effect list \<Rightarrow> request list" where
  "network_fetches [] = []"
| "network_fetches (NetworkFetch r # es) = r # network_fetches es"
| "network_fetches (e # es) = network_fetches es"

text \<open>The responses given to \<open>event.respondWith\<close>.\<close>

fun responses :: "effect list \<Rightarrow> response list" where
  "responses [] = []"
| "responses (RespondWith r # es) = r # responses es"
| "responses (e # es) = responses es"

text \<open>The calls of \<open>pushManager.subscribe\<close>, by application server key.\<close>

fun push_subscribes :: "effect list \<Rightarrow> nat list list" where
  "push_subscribes [] = []"
| "push_subscribes (PushSubscribe visible k # es) = k # push_subscribes es"
| "push_subscribes (e # es) = push_subscribes es"

text \<open>The notifications shown: title and options.\<close>

fun shown_notifications :: "effect list \<Rightarrow> (jsval \<times> jsval) list" where
  "shown_notifications [] = []"
| "shown_notifications (ShowNotification title options # es) =
     (title, options) # shown_notifications es"
| "shown_notifications (e # es) = shown_notifications es"

text \<open>The messages of type \<open>navigation\<close> posted to clients.\<close>

fun navigation_messages :: "effect list \<Rightarrow> (client \<times> jsval) list" where
  "navigation_messages [] = []"
| "navigation_messages (PostMessage c m # es) =
     (if get_prop m ''type'' = Inr (JStr ''navigation'')
      then (c, m) # navigation_messages es else navigation_messages es)"
| "navigation_messages (e # es) = navigation_messages es"

text \<open>
  The version tag of a bucket name: what follows \<open>static-cache-\<close> in the worker's
  naming scheme; other names carry none.
\<close>

definition version_tag :: "string \<Rightarrow> string option" where
  "version_tag cacheName =
     (if startsWith cacheName ''static-cache-''
      then Some (drop (length ''static-cache-'') cacheName) else None)"

text \<open>A property read that cannot throw, for stating what a notification holds.\<close>

definition prop_of :: "jsval \<Rightarrow> string \<Rightarrow> jsval" where
  "prop_of v name = (case get_prop v name of Inl e \<Rightarrow> JUndefined | Inr x \<Rightarrow> x)"

text \<open>The key the inner \<open>try\<close>/\<open>catch\<close> of \<open>subscribeUserToPush\<close> leaves in use.\<close>

definition vapid_key_in_use :: "platform \<Rightarrow> string" where
  "vapid_key_in_use P =
     (case server_vapid_key P of Some k \<Rightarrow> k | None \<Rightarrow> hardcoded_vapid_key)"

text \<open>The URLs fetched with \<open>GET\<close> from the server.\<close>

fun api_gets :: "effect list \<Rightarrow> string list" where
  "api_gets [] = []"
| "api_gets (ApiFetch m u body # es) =
     (if m = ''GET'' then u # api_gets es else api_gets es)"
| "api_gets (e # es) = api_gets es"

text \<open>The bodies posted to \<open>/subscribe\<close>.\<close>

fun subscription_posts :: "effect list \<Rightarrow> jsval list" where
  "subscription_posts [] = []"
| "subscription_posts (ApiFetch m u (Some body) # es) =
     (if m = ''POST'' \<and> u = SERVER_URL @ ''/subscribe''
      then body # subscription_posts es else subscription_posts es)"
| "subscription_posts (e # es) = subscription_posts es"

text \<open>
  A step from \<open>B\<close> to \<open>B'\<close> that leaves the push subscriptions alone: it only
  extends the trace, without a call of \<open>pushManager.subscribe\<close>.
\<close>

definition keeps_subscriptions :: "browser \<Rightarrow> browser \<Rightarrow> bool" where
  "keeps_subscriptions B B' \<longleftrightarrow>
     subscriptions B' = subscriptions B
     \<and> (\<exists>xs. trace B' = trace B @ xs \<and> push_subscribes xs = [])"

text \<open>The body \<open>sendSubscriptionToServer\<close> posts.\<close>

definition subscribe_body :: "platform \<Rightarrow> subscription \<Rightarrow> jsval" where
  "subscribe_body P sub =
     JObj [(''subscription'', subscription_json sub),
           (''origin'', JStr (location_origin P)),
           (''url'', JStr (location_href P))]"

text \<open>What \<open>log\<close> and \<open>swLog\<close> add to the trace.\<close>

definition log_effects :: "platform \<Rightarrow> string \<Rightarrow> effect list" where
  "log_effects P message =
     (if has_log_element P then [PageLog (now_iso P @ '': '' @ message)] else [])"

definition swLog_effects :: "platform \<Rightarrow> string \<Rightarrow> effect list" where
  "swLog_effects P message =
     ConsoleLog (''[Service Worker '' @ VERSION @ ''] '' @ message)
       # map (\<lambda>client. PostMessage client
                (JObj [(''type'', JStr ''log''), (''message'', JStr message)]))
           (controlled_clients P)"

text \<open>The two replacements of \<open>urlBase64ToUint8Array\<close> on one character.\<close>

definition url_to_std :: "char \<Rightarrow> char" where
  "url_to_std c = (if c = CHR ''_'' then CHR ''/'' else if c = CHR ''-'' then CHR ''+'' else c)"

text \<open>
  What the push listener logs, and the value it builds the notification from: the
  parsed payload, or \<open>{}\<close> when there is no payload or it does not parse.
\<close>

definition push_log :: "platform \<Rightarrow> (js_error + jsval) option \<Rightarrow> effect list" where
  "push_log P data =
     swLog_effects P ''Push event received'' @
     (case data of
        None \<Rightarrow> []
      | Some (Inr v) \<Rightarrow> swLog_effects P (''Push data: '' @ json_stringify P v)
      | Some (Inl e) \<Rightarrow> swLog_effects P (''Error parsing push data: '' @ error_text e))"

definition push_value :: "(js_error + jsval) option \<Rightarrow> jsval" where
  "push_value data = (case data of Some (Inr v) \<Rightarrow> v | _ \<Rightarrow> JObj [])"

section \<open>A concrete browser\<close>

text \<open>
  A browser for evaluating the model: the page \<open>https://app.vercel.app/index.html\<close>
  with one controlled client, a push service that grants subscriptions, and a network
  that is down unless a response is supplied.
\<close>

definition example_subscription :: subscription where
  "example_subscription =
     \<lparr>endpoint = ''https://push.example.com/send/abc'', p256dh = ''BPk'', auth = ''s3c''\<rparr>"

definition example_client :: client where
  "example_client = \<lparr>client_id = 1, client_url = ''https://app.vercel.app/index.html''\<rparr>"

definition example_platform :: platform where
  "example_platform =
     \<lparr>has_serviceWorker = True, has_PushManager = True, has_Notification = True,
      has_log_element = True, has_status_element = True,
      json_parse = (\<lambda>s. Inl SyntaxError),
      json_stringify = (\<lambda>v. ''{}''),
      network = (\<lambda>m u. Inl NetworkError),
      push_subscribe = (\<lambda>k. Inr example_subscription),
      register_worker = Inr ''https://app.vercel.app/'',
      request_permission = ''granted'',
      document_referrer = ''https://www.example.org/'',
      userAgent = ''Mozilla/5.0'',
      location_href = ''https://app.vercel.app/index.html'',
      location_origin = ''https://app.vercel.app'',
      worker_origin = ''https://app.vercel.app'',
      now_iso = ''2024-01-01T00:00:00.000Z'',
      controlled_clients = [example_client],
      window_clients = [example_client],
      can_openWindow = True\<rparr>"

definition example_response :: response where
  "example_response = \<lparr>resp_status = 200, resp_body = ''body { margin: 0 }''\<rparr>"

text \<open>The same platform with the network answering every request with a response.\<close>

definition online_platform :: platform where
  "online_platform = example_platform\<lparr>network := (\<lambda>m u. Inr example_response)\<rparr>"

definition fresh_browser :: browser where
  "fresh_browser =
     \<lparr>subscriptions = [], localStorage = Map.empty, cacheStorage = [], trace = []\<rparr>"

definition subscribed_browser :: browser where
  "subscribed_browser = fresh_browser\<lparr>subscriptions := [example_subscription]\<rparr>"

definition cached_browser :: browser where
  "cached_browser =
     fresh_browser\<lparr>cacheStorage :=
       [(''static-cache-v0'', [(''https://app.vercel.app/old.css'', example_response)]),
        (''static-cache-v1'', [(''https://app.vercel.app/style.css'', example_response)]),
        (''images'', [])]\<rparr>"

text \<open>A stylesheet of the worker's own origin, and a script from another origin.\<close>

definition own_request :: request where
  "own_request =
     \<lparr>req_url = ''https://app.vercel.app/style.css'', req_origin = ''https://app.vercel.app'',
      req_hostname = ''app.vercel.app'', req_pathname = ''/style.css'',
      req_method = ''GET'', req_mode = ''no-cors'',
      req_referrer = ''https://app.vercel.app/index.html''\<rparr>"

definition foreign_request :: request where
  "foreign_request =
     \<lparr>req_url = ''https://cdn.example.com/lib.js'', req_origin = ''https://cdn.example.com'',
      req_hostname = ''cdn.example.com'', req_pathname = ''/lib.js'',
      req_method = ''GET'', req_mode = ''no-cors'',
      req_referrer = ''https://app.vercel.app/index.html''\<rparr>"

definition navigation_request :: request where
  "navigation_request =
     \<lparr>req_url = ''https://other.vercel.app/page2.html'', req_origin = ''https://other.vercel.app'',
      req_hostname = ''other.vercel.app'', req_pathname = ''/page2.html'',
      req_method = ''GET'', req_mode = ''navigate'', req_referrer = []\<rparr>"

text \<open>A push payload with a title and a nested \<open>data.url\<close>.\<close>

definition example_payload :: jsval where
  "example_payload =
     JObj [(''title'', JStr ''Sale''), (''data'', JObj [(''url'', JStr ''/promo'')])]"

section \<open>The key codec: lemmas\<close>

lemma fill_codes_from:
  "i \<le> length rawData \<Longrightarrow> length out = length rawData \<Longrightarrow>
   fill_codes i rawData out = take i out @ map of_char (drop i rawData)"
proof (induction i rawData out rule: fill_codes.induct)
  case (1 i rawData out)
  show ?case
  proof (cases "i < length rawData")
    case True
    have "fill_codes i rawData out = fill_codes (Suc i) rawData (out[i := of_char (rawData ! i)])"
      using True by (simp add: fill_codes.simps[of i])
    also have "\<dots> = take (Suc i) (out[i := of_char (rawData ! i)]) @ map of_char (drop (Suc i) rawData)"
      using "1.IH"[OF True] True "1.prems" by simp
    also have "\<dots> = take i out @ map of_char (drop i rawData)"
      using True "1.prems" by (simp add: take_Suc_conv_app_nth Cons_nth_drop_Suc[symmetric])
    finally show ?thesis .
  next
    case False
    then show ?thesis using "1.prems" by (subst fill_codes.simps) simp
  qed
qed

lemma fill_codes_all:
  "n = length rawData \<Longrightarrow> fill_codes 0 rawData (replicate n 0) = map of_char rawData"
  using fill_codes_from[of 0 rawData "replicate (length rawData) 0"] by simp

lemma replace_both:
  "replace_all CHR ''_'' CHR ''/'' (replace_all CHR ''-'' CHR ''+'' s) = map url_to_std s"
  by (simp add: replace_all_def url_to_std_def)

lemma urlBase64ToUint8Array_atob:
  "urlBase64ToUint8Array s =
     (case atob (map url_to_std (s @ base64_padding s)) of
        Inl e \<Rightarrow> Inl e | Inr rawData \<Rightarrow> Inr (map of_char rawData))"
  by (simp add: urlBase64ToUint8Array_def Let_def replace_both fill_codes_all
      split: sum.splits)

lemma alphabet_table:
  "list_all (\<lambda>v. sextet_of (url_to_std (base64url_alphabet ! v)) = Some v
      \<and> \<not> is_ascii_whitespace (url_to_std (base64url_alphabet ! v))
      \<and> url_to_std (base64url_alphabet ! v) \<noteq> CHR ''='') [0..<64]"
  by code_simp

lemma alphabet_facts:
  assumes "v < 64"
  shows "sextet_of (url_to_std (base64url_alphabet ! v)) = Some v"
    and "\<not> is_ascii_whitespace (url_to_std (base64url_alphabet ! v))"
    and "url_to_std (base64url_alphabet ! v) \<noteq> CHR ''=''"
  using alphabet_table assms by (simp_all add: list_all_iff)

lemma sextets_bound: "is_byte_list bs \<Longrightarrow> list_all (\<lambda>v. v < 64) (bytes_to_sextets bs)"
  by (induction bs rule: bytes_to_sextets.induct) (auto simp: is_byte_list_def)

lemma sextets_roundtrip: "is_byte_list bs \<Longrightarrow> sextets_to_bytes (bytes_to_sextets bs) = bs"
  by (induction bs rule: bytes_to_sextets.induct) (auto simp: is_byte_list_def)

lemma sextets_length: "length (bytes_to_sextets bs) mod 4 \<noteq> 1"
  by (induction bs rule: bytes_to_sextets.induct) auto

lemma mod4_cases:
  obtains "n mod 4 = (0::nat)" | "n mod 4 = 1" | "n mod 4 = 2" | "n mod 4 = 3"
proof -
  have "n mod 4 < 4" by simp
  then show ?thesis using that by linarith
qed

lemma pad_len: "(n + (4 - n mod 4) mod 4) mod 4 = (0::nat)"
proof -
  have "(n + (4 - n mod 4) mod 4) mod 4 = (n mod 4 + (4 - n mod 4) mod 4) mod 4"
    by (simp add: mod_add_left_eq)
  also have "\<dots> = 0"
    by (cases n rule: mod4_cases) simp_all
  finally show ?thesis .
qed

lemma pad_le2: "n mod 4 \<noteq> (1::nat) \<Longrightarrow> (4 - n mod 4) mod 4 \<le> 2"
  by (cases n rule: mod4_cases) simp_all

lemma pad_multiple: "length (s @ base64_padding s) mod 4 = 0"
  by (simp add: base64_padding_def pad_len)

lemma those_map_Some:
  "list_all (\<lambda>x. f x = Some (g x)) xs \<Longrightarrow> those (map f xs) = Some (map g xs)"
  by (induction xs) auto

lemma remove_trailing_equals_pad:
  assumes "k \<le> 2" and "e = [] \<or> last e \<noteq> CHR ''=''"
  shows "remove_trailing_equals (e @ replicate k CHR ''='') = e"
proof -
  from assms(1) consider "k = 0" | "k = 1" | "k = 2" by linarith
  then show ?thesis
  proof cases
    case 1 then show ?thesis using assms(2) by (auto simp: remove_trailing_equals_def)
  next
    case 2 then show ?thesis using assms(2) by (auto simp: remove_trailing_equals_def)
  next
    case 3
    have "replicate k CHR ''='' = [CHR ''='', CHR ''='']" using 3 by (simp add: numeral_2_eq_2)
    then show ?thesis using assms(2)
      by (auto simp: remove_trailing_equals_def Let_def butlast_append)
  qed
qed

lemma atob_encoded:
  assumes bs: "is_byte_list bs"
    and k: "k = (4 - length (bytes_to_sextets bs) mod 4) mod 4"
  shows "atob (map url_to_std (base64url_encode bs) @ replicate k CHR ''='') = Inr (map char_of bs)"
proof -
  let ?vs = "bytes_to_sextets bs"
  let ?e = "map url_to_std (base64url_encode bs)"
  have all: "list_all (\<lambda>v. v < 64) ?vs" using bs by (rule sextets_bound)
  have e_eq: "?e = map (\<lambda>v. url_to_std (base64url_alphabet ! v)) ?vs"
    by (simp add: base64url_encode_def comp_def)
  have len: "length ?e = length ?vs" by (simp add: base64url_encode_def)
  have nows: "filter (\<lambda>c. \<not> is_ascii_whitespace c) ?e = ?e"
    unfolding e_eq using all by (auto simp: list_all_iff filter_id_conv alphabet_facts)
  have noeq: "CHR ''='' \<notin> set ?e"
    unfolding e_eq using all alphabet_facts(3) by (fastforce simp: list_all_iff)
  have lastne: "?e = [] \<or> last ?e \<noteq> CHR ''=''"
    using noeq last_in_set by metis
  have eqws: "\<not> is_ascii_whitespace CHR ''=''" by (simp add: is_ascii_whitespace_def)
  have filt: "filter (\<lambda>c. \<not> is_ascii_whitespace c) (?e @ replicate k CHR ''='') = ?e @ replicate k CHR ''=''"
    using nows eqws by simp
  have m1: "length ?vs mod 4 \<noteq> 1" by (rule sextets_length)
  have k2: "k \<le> 2" using k pad_le2[OF m1] by simp
  have lenmod: "length (?e @ replicate k CHR ''='') mod 4 = 0"
    using k len by (simp add: pad_len)
  have rte: "remove_trailing_equals (?e @ replicate k CHR ''='') = ?e"
    using remove_trailing_equals_pad[OF k2 lastne] .
  have th: "those (map sextet_of ?e) = Some ?vs"
  proof -
    have "list_all (\<lambda>v. (sextet_of \<circ> (\<lambda>v. url_to_std (base64url_alphabet ! v))) v = Some (id v)) ?vs"
      using all by (auto simp: list_all_iff alphabet_facts)
    from those_map_Some[OF this] show ?thesis unfolding e_eq by (simp add: comp_def)
  qed
  have rt: "sextets_to_bytes ?vs = bs" using bs by (rule sextets_roundtrip)
  show ?thesis
    unfolding atob_def filt Let_def using lenmod rte m1 len th rt by simp
qed

lemma of_char_char_of_bytes: "is_byte_list bs \<Longrightarrow> map (of_char \<circ> char_of) bs = bs"
  by (induction bs) (auto simp: is_byte_list_def)

lemma pad_std: "url_to_std CHR ''='' = CHR ''=''"
  by (simp add: url_to_std_def)

lemma decode_encode:
  assumes "is_byte_list bs"
  shows "urlBase64ToUint8Array (base64url_encode bs) = Inr bs"
proof -
  have len: "length (base64url_encode bs) = length (bytes_to_sextets bs)"
    by (simp add: base64url_encode_def)
  have "atob (map url_to_std (base64url_encode bs @ base64_padding (base64url_encode bs))) = Inr (map char_of bs)"
    using atob_encoded[OF assms refl] by (simp add: base64_padding_def len pad_std)
  then show ?thesis
    using assms by (simp add: urlBase64ToUint8Array_atob of_char_char_of_bytes)
qed

lemma decode_encode_padded:
  assumes "is_byte_list bs"
  shows "urlBase64ToUint8Array (base64url_encode_padded bs) = Inr bs"
proof -
  have len: "length (base64url_encode bs) = length (bytes_to_sextets bs)"
    by (simp add: base64url_encode_def)
  have l4: "length (base64url_encode_padded bs) mod 4 = 0"
    by (simp add: base64url_encode_padded_def base64_padding_def pad_len)
  then have nopad: "base64_padding (base64url_encode_padded bs) = []"
    by (simp add: base64_padding_def)
  have "atob (map url_to_std (base64url_encode_padded bs)) = Inr (map char_of bs)"
    using atob_encoded[OF assms refl]
    by (simp add: base64url_encode_padded_def base64_padding_def len pad_std)
  then show ?thesis
    using assms nopad by (simp add: urlBase64ToUint8Array_atob of_char_char_of_bytes)
qed

lemma decoded_bytes:
  assumes "urlBase64ToUint8Array s = Inr bs"
  shows "is_byte_list bs"
proof -
  from assms obtain raw where "bs = map of_char raw"
    by (auto simp: urlBase64ToUint8Array_atob split: sum.splits)
  then show ?thesis by (simp add: is_byte_list_def list_all_iff)
qed

lemma hardcoded_key_decodes:
  "urlBase64ToUint8Array hardcoded_vapid_key =
     Inr [4, 109, 77, 126, 177, 195, 131, 1, 8, 197, 238, 0, 10, 167, 156, 126,
          205, 48, 7, 68, 246, 191, 80, 218, 76, 78, 57, 50, 12, 217, 83, 134,
          232, 190, 57, 198, 43, 12, 60, 121, 43, 254, 71, 202, 250, 241, 111,
          203, 153, 93, 214, 76, 140, 220, 112, 173, 53, 11, 97, 66, 192, 206,
          121, 8, 180]"
  by code_simp

text \<open>
  C5. The key codec appends between zero and three \<open>=\<close> so that the length becomes a
  multiple of four, replaces every \<open>-\<close> by \<open>+\<close> and every \<open>_\<close> by \<open>/\<close>, and gives
  the character codes of what \<open>atob\<close> decodes, or the error \<open>atob\<close> throws. Decoding
  and then encoding again with the URL alphabet, padded or not, gives a string with the
  byte content of the original: it decodes to the same bytes. Every byte sequence is
  the content of its padded and of its unpadded encoding.
\<close>

theorem key_codec_pads_translates_and_round_trips:
  "length (base64String @ base64_padding base64String) mod 4 = 0
   \<and> length (base64_padding base64String) < 4
   \<and> set (base64_padding base64String) \<subseteq> {CHR ''=''}
   \<and> urlBase64ToUint8Array base64String =
       (case atob (map (\<lambda>c. if c = CHR ''_'' then CHR ''/''
                              else if c = CHR ''-'' then CHR ''+'' else c)
                     (base64String @ base64_padding base64String)) of
          Inl e \<Rightarrow> Inl e
        | Inr rawData \<Rightarrow> Inr (map of_char rawData))
   \<and> (\<forall>bytes. urlBase64ToUint8Array base64String = Inr bytes \<longrightarrow>
          urlBase64ToUint8Array (base64url_encode bytes) = Inr bytes
        \<and> urlBase64ToUint8Array (base64url_encode_padded bytes) = Inr bytes)
   \<and> (\<forall>bytes. is_byte_list bytes \<longrightarrow>
          urlBase64ToUint8Array (base64url_encode bytes) = Inr bytes
        \<and> urlBase64ToUint8Array (base64url_encode_padded bytes) = Inr bytes)"
proof -
  have tr: "(\<lambda>c. if c = CHR ''_'' then CHR ''/''
               else if c = CHR ''-'' then CHR ''+'' else c) = url_to_std"
    by (rule ext) (simp add: url_to_std_def)
  have a: "length (base64String @ base64_padding base64String) mod 4 = 0"
    by (rule pad_multiple)
  have b: "length (base64_padding base64String) < 4"
    by (simp add: base64_padding_def)
  have c: "set (base64_padding base64String) \<subseteq> {CHR ''=''}"
    by (auto simp: base64_padding_def)
  have d: "urlBase64ToUint8Array base64String =
       (case atob (map url_to_std (base64String @ base64_padding base64String)) of
          Inl e \<Rightarrow> Inl e
        | Inr rawData \<Rightarrow> Inr (map of_char rawData))"
    by (rule urlBase64ToUint8Array_atob)
  have e: "\<forall>bytes. urlBase64ToUint8Array base64String = Inr bytes \<longrightarrow>
          urlBase64ToUint8Array (base64url_encode bytes) = Inr bytes
        \<and> urlBase64ToUint8Array (base64url_encode_padded bytes) = Inr bytes"
    using decoded_bytes decode_encode decode_encode_padded by blast
  have f: "\<forall>bytes. is_byte_list bytes \<longrightarrow>
          urlBase64ToUint8Array (base64url_encode bytes) = Inr bytes
        \<and> urlBase64ToUint8Array (base64url_encode_padded bytes) = Inr bytes"
    using decode_encode decode_encode_padded by blast
  show ?thesis unfolding tr using a b c d e f by blast
qed

lemma example_key_decodes: "urlBase64ToUint8Array ''-_8'' = Inr [251, 255]"
  by code_simp

lemma example_key_encodes:
  "base64url_encode [251, 255] = ''-_8''"
  "base64url_encode_padded [251, 255] = ''-_8=''"
  by code_simp+

theorem key_codec_pads_translates_and_round_trips_witness:
  "urlBase64ToUint8Array ''-_8'' = Inr [251, 255]
   \<and> base64url_encode [251, 255] = ''-_8''
   \<and> base64url_encode_padded [251, 255] = ''-_8=''
   \<and> urlBase64ToUint8Array ''-_8='' = Inr [251, 255]
   \<and> is_byte_list [251, 255]"
  using key_codec_pads_translates_and_round_trips[of "''-_8''"] example_key_decodes
    example_key_encodes
  by (simp add: is_byte_list_def)
section \<open>Traces: lemmas\<close>

lemma trace_emit [simp]: "trace (emit e B) = trace B @ [e]"
  and subscriptions_emit [simp]: "subscriptions (emit e B) = subscriptions B"
  and localStorage_emit [simp]: "localStorage (emit e B) = localStorage B"
  and cacheStorage_emit [simp]: "cacheStorage (emit e B) = cacheStorage B"
  by (simp_all add: emit_def)

lemma trace_fold_emit [simp]:
  "trace (fold (\<lambda>c. emit (f c)) cs B) = trace B @ map f cs"
  by (induction cs arbitrary: B) simp_all

lemma state_fold_emit [simp]:
  "subscriptions (fold (\<lambda>c. emit (f c)) cs B) = subscriptions B"
  "localStorage (fold (\<lambda>c. emit (f c)) cs B) = localStorage B"
  "cacheStorage (fold (\<lambda>c. emit (f c)) cs B) = cacheStorage B"
  by (induction cs arbitrary: B) simp_all

lemma trace_log [simp]: "trace (log P m B) = trace B @ log_effects P m"
  and subscriptions_log [simp]: "subscriptions (log P m B) = subscriptions B"
  and localStorage_log [simp]: "localStorage (log P m B) = localStorage B"
  and cacheStorage_log [simp]: "cacheStorage (log P m B) = cacheStorage B"
  by (simp_all add: log_def log_effects_def)

lemma trace_swLog [simp]: "trace (swLog P m B) = trace B @ swLog_effects P m"
  and subscriptions_swLog [simp]: "subscriptions (swLog P m B) = subscriptions B"
  and localStorage_swLog [simp]: "localStorage (swLog P m B) = localStorage B"
  and cacheStorage_swLog [simp]: "cacheStorage (swLog P m B) = cacheStorage B"
  by (simp_all add: swLog_def swLog_effects_def)

lemma getSubscription_cong [simp]:
  "getSubscription (emit e B) = getSubscription B"
  "getSubscription (log P m B) = getSubscription B"
  "getSubscription (swLog P m B) = getSubscription B"
  by (simp_all add: getSubscription_def)

lemma effects_of_extend: "trace B' = trace B @ xs \<Longrightarrow> effects_of B B' = xs"
  by (simp add: effects_of_def)

lemma navigation_posts_append [simp]:
  "navigation_posts (xs @ ys) = navigation_posts xs @ navigation_posts ys"
  by (induction xs rule: navigation_posts.induct) simp_all

lemma navigation_posts_log [simp]: "navigation_posts (log_effects P m) = []"
  by (simp add: log_effects_def)

lemma navigation_posts_PostMessages [simp]:
  "navigation_posts (map (\<lambda>c. PostMessage c (f c)) cs) = []"
  by (induction cs) simp_all

lemma navigation_posts_swLog [simp]: "navigation_posts (swLog_effects P m) = []"
  by (simp add: swLog_effects_def)

lemma trace_logNavigationToServer:
  "\<exists>xs. trace (logNavigationToServer P url referrer B) = trace B @ xs
      \<and> navigation_posts xs =
          (case stored_endpoint P B of Inl e \<Rightarrow> []
           | Inr ep \<Rightarrow> [page_navigation_body P url referrer ep])"
  by (auto simp: logNavigationToServer_def Let_def split: sum.splits)

lemma trace_sw_logNavigationToServer:
  "\<exists>xs. trace (sw_logNavigationToServer P url referrer B) = trace B @ xs
      \<and> navigation_posts xs =
          [sw_navigation_body P url referrer
             (case getSubscription B of Some s \<Rightarrow> JStr (endpoint s)
              | None \<Rightarrow> JStr ''not-available-in-sw'')]"
  by (auto simp: sw_logNavigationToServer_def Let_def split: sum.splits)

lemma posts_logNavigationToServer:
  "navigation_posts (effects_of B (logNavigationToServer P url referrer B)) =
     (case stored_endpoint P B of Inl e \<Rightarrow> []
      | Inr ep \<Rightarrow> [page_navigation_body P url referrer ep])"
  using trace_logNavigationToServer[of P url referrer B] by (auto simp: effects_of_extend)

lemma posts_sw_logNavigationToServer:
  "navigation_posts (effects_of B (sw_logNavigationToServer P url referrer B)) =
     [sw_navigation_body P url referrer
        (case getSubscription B of Some s \<Rightarrow> JStr (endpoint s)
         | None \<Rightarrow> JStr ''not-available-in-sw'')]"
  using trace_sw_logNavigationToServer[of P url referrer B] by (auto simp: effects_of_extend)

lemma stored_endpoint_absent:
  "localStorage B ''pushSubscription'' = None \<or> localStorage B ''pushSubscription'' = Some []
   \<Longrightarrow> stored_endpoint P B = Inr (JStr ''not-subscribed'')"
  by (auto simp: stored_endpoint_def)

section \<open>Navigation reports\<close>

lemma stored_endpoint_fresh:
  "stored_endpoint P fresh_browser = Inr (JStr ''not-subscribed'')"
  by (simp add: stored_endpoint_def fresh_browser_def)

lemma getSubscription_fresh: "getSubscription fresh_browser = None"
  by (simp add: getSubscription_def fresh_browser_def)

text \<open>
  C1, as amended. With no push subscription cached, each reporter posts one body to
  \<open>/log-navigation\<close>. The page's reporter, finding no (or an empty)
  \<open>pushSubscription\<close> item in local storage, sends \<open>subscriptionEndpoint\<close>
  \<open>not-subscribed\<close>; the worker's reporter, getting \<open>null\<close> from
  \<open>getSubscription\<close>, sends \<open>not-available-in-sw\<close>.
\<close>

theorem report_without_subscription_marker:
  "(localStorage B ''pushSubscription'' = None \<or> localStorage B ''pushSubscription'' = Some []
      \<longrightarrow> posted_field ''subscriptionEndpoint''
            (effects_of B (logNavigationToServer P url referrer B))
          = [Inr (JStr ''not-subscribed'')])
   \<and> (getSubscription B = None
      \<longrightarrow> posted_field ''subscriptionEndpoint''
            (effects_of B (sw_logNavigationToServer P url referrer B))
          = [Inr (JStr ''not-available-in-sw'')])"
  by (auto simp: posted_field_def posts_logNavigationToServer posts_sw_logNavigationToServer
      stored_endpoint_absent page_navigation_body_def sw_navigation_body_def)


theorem report_without_subscription_marker_witness:
  "localStorage fresh_browser ''pushSubscription'' = None
   \<and> posted_field ''subscriptionEndpoint''
        (effects_of fresh_browser
           (logNavigationToServer example_platform
              (JStr ''https://other.vercel.app/'') (JStr []) fresh_browser))
       = [Inr (JStr ''not-subscribed'')]
   \<and> getSubscription fresh_browser = None
   \<and> posted_field ''subscriptionEndpoint''
        (effects_of fresh_browser
           (sw_logNavigationToServer example_platform
              (JStr ''https://other.vercel.app/'') (JStr []) fresh_browser))
       = [Inr (JStr ''not-available-in-sw'')]"
proof -
  have l: "localStorage fresh_browser ''pushSubscription'' = None"
    by (simp add: fresh_browser_def)
  show ?thesis
    using report_without_subscription_marker[of fresh_browser example_platform
        "JStr ''https://other.vercel.app/''" "JStr []"]
    by (simp add: getSubscription_fresh l)
qed

text \<open>
  C1 as stated fails on the worker's path: with no subscription, the worker's report
  carries \<open>not-available-in-sw\<close>, not \<open>not-subscribed\<close>.
\<close>

theorem worker_report_marker_differs:
  "getSubscription fresh_browser = None
   \<and> posted_field ''subscriptionEndpoint''
        (effects_of fresh_browser
           (sw_logNavigationToServer example_platform
              (JStr ''https://other.vercel.app/'') (JStr []) fresh_browser))
       = [Inr (JStr ''not-available-in-sw'')]
   \<and> posted_field ''subscriptionEndpoint''
        (effects_of fresh_browser
           (sw_logNavigationToServer example_platform
              (JStr ''https://other.vercel.app/'') (JStr []) fresh_browser))
       \<noteq> [Inr (JStr ''not-subscribed'')]"
  by (simp add: getSubscription_fresh posted_field_def posts_sw_logNavigationToServer
      sw_navigation_body_def)

text \<open>
  C10. Called with a falsy \<open>referrer\<close>, the page's reporter posts \<open>document.referrer\<close>
  as the body's \<open>referrer\<close> (in the one POST it sends; it sends none when reading the
  stored subscription throws), and the worker's reporter posts \<open>unknown\<close>.
\<close>

theorem report_referrer_default:
  "\<not> truthy referrer \<Longrightarrow>
   posted_field ''referrer'' (effects_of B (logNavigationToServer P url referrer B))
     = (case stored_endpoint P B of Inl e \<Rightarrow> []
        | Inr ep \<Rightarrow> [Inr (JStr (document_referrer P))])
   \<and> posted_field ''referrer'' (effects_of B (sw_logNavigationToServer P url referrer B))
     = [Inr (JStr ''unknown'')]"
  by (auto simp: posted_field_def posts_logNavigationToServer posts_sw_logNavigationToServer
      page_navigation_body_def sw_navigation_body_def js_or_def split: sum.splits)

theorem report_referrer_default_witness:
  "\<not> truthy JUndefined
   \<and> posted_field ''referrer''
        (effects_of fresh_browser
           (logNavigationToServer example_platform (JStr ''https://other.vercel.app/'')
              JUndefined fresh_browser))
       = [Inr (JStr ''https://www.example.org/'')]
   \<and> posted_field ''referrer''
        (effects_of fresh_browser
           (sw_logNavigationToServer example_platform (JStr ''https://other.vercel.app/'')
              JUndefined fresh_browser))
       = [Inr (JStr ''unknown'')]"
  using report_referrer_default[of JUndefined fresh_browser example_platform
      "JStr ''https://other.vercel.app/''"]
  by (simp add: stored_endpoint_fresh example_platform_def)
section \<open>Cache activation\<close>

lemma startsWith_split: "startsWith s p \<Longrightarrow> s = p @ drop (length p) s"
  by (induction s p rule: startsWith.induct) simp_all

lemma is_old_cache_version_tag:
  "is_old_cache name \<longleftrightarrow> (\<exists>tag. version_tag name = Some tag \<and> tag \<noteq> VERSION)"
proof (cases "startsWith name ''static-cache-''")
  case True
  from startsWith_split[OF True]
  have "name = ''static-cache-'' @ drop (length ''static-cache-'') name" .
  then have "name = ''static-cache-'' @ VERSION \<longleftrightarrow> drop (length ''static-cache-'') name = VERSION"
    by (metis same_append_eq)
  with True show ?thesis by (auto simp: is_old_cache_def version_tag_def)
next
  case False
  then show ?thesis by (simp add: is_old_cache_def version_tag_def)
qed

lemma cacheStorage_caches_delete [simp]:
  "cacheStorage (caches_delete name B) = filter (\<lambda>(n, entries). n \<noteq> name) (cacheStorage B)"
  by (simp add: caches_delete_def)

lemma cacheStorage_delete_all:
  "cacheStorage (fold (\<lambda>cacheName B'. caches_delete cacheName (swLog P (msg cacheName) B')) names B)
     = filter (\<lambda>(n, entries). n \<notin> set names) (cacheStorage B)"
proof (induction names arbitrary: B)
  case Nil
  then show ?case by simp
next
  case (Cons a names)
  have "filter (\<lambda>(n, entries). n \<notin> set names) (filter (\<lambda>(n, entries). n \<noteq> a) (cacheStorage B))
        = filter (\<lambda>(n, entries). n \<notin> set (a # names)) (cacheStorage B)"
    by (simp add: case_prod_unfold conj_commute)
  with Cons show ?case by simp
qed

lemma cacheStorage_sw_activate:
  "cacheStorage (sw_activate P B) = filter (\<lambda>(n, entries). \<not> is_old_cache n) (cacheStorage B)"
proof -
  have "cacheStorage (sw_activate P B)
      = filter (\<lambda>(n, entries). n \<notin> set (filter is_old_cache (map fst (cacheStorage B)))) (cacheStorage B)"
    by (simp add: sw_activate_def Let_def cacheStorage_delete_all caches_keys_def)
  also have "\<dots> = filter (\<lambda>(n, entries). \<not> is_old_cache n) (cacheStorage B)"
    by (rule filter_cong) (auto simp: image_iff)
  finally show ?thesis .
qed

lemma not_old_current: "\<not> is_old_cache static_cache_name"
  by (simp add: is_old_cache_def static_cache_name_def)

text \<open>
  C2. After \<open>activate\<close>, no bucket remains whose version tag differs from the current
  tag \<open>v1\<close>; the current bucket \<open>static-cache-v1\<close>, when it existed, is retained with
  its entries, and so is every bucket whose name carries no version tag; no bucket is
  added. This holds for every list of buckets present before.
\<close>

theorem activate_deletes_old_versions:
  "(\<forall>name tag. version_tag name = Some tag \<and> tag \<noteq> VERSION
       \<longrightarrow> name \<notin> set (caches_keys (sw_activate P B)))
   \<and> (\<forall>entries. (static_cache_name, entries) \<in> set (cacheStorage B)
       \<longrightarrow> (static_cache_name, entries) \<in> set (cacheStorage (sw_activate P B)))
   \<and> (\<forall>name entries. version_tag name = None \<and> (name, entries) \<in> set (cacheStorage B)
       \<longrightarrow> (name, entries) \<in> set (cacheStorage (sw_activate P B)))
   \<and> set (cacheStorage (sw_activate P B)) \<subseteq> set (cacheStorage B)"
proof (intro conjI allI impI)
  fix name tag
  assume "version_tag name = Some tag \<and> tag \<noteq> VERSION"
  then have "is_old_cache name" using is_old_cache_version_tag by blast
  then show "name \<notin> set (caches_keys (sw_activate P B))"
    by (auto simp: caches_keys_def cacheStorage_sw_activate)
next
  fix entries
  assume "(static_cache_name, entries) \<in> set (cacheStorage B)"
  then show "(static_cache_name, entries) \<in> set (cacheStorage (sw_activate P B))"
    by (simp add: cacheStorage_sw_activate not_old_current)
next
  fix name entries
  assume a: "version_tag name = None \<and> (name, entries) \<in> set (cacheStorage B)"
  then have "\<not> is_old_cache name" using is_old_cache_version_tag by auto
  with a show "(name, entries) \<in> set (cacheStorage (sw_activate P B))"
    by (simp add: cacheStorage_sw_activate)
next
  show "set (cacheStorage (sw_activate P B)) \<subseteq> set (cacheStorage B)"
    by (auto simp: cacheStorage_sw_activate)
qed

theorem activate_deletes_old_versions_witness:
  "version_tag ''static-cache-v0'' = Some ''v0'' \<and> ''v0'' \<noteq> VERSION
   \<and> ''static-cache-v0'' \<in> set (caches_keys cached_browser)
   \<and> ''static-cache-v0'' \<notin> set (caches_keys (sw_activate example_platform cached_browser))
   \<and> (static_cache_name, [(''https://app.vercel.app/style.css'', example_response)])
        \<in> set (cacheStorage cached_browser)
   \<and> (static_cache_name, [(''https://app.vercel.app/style.css'', example_response)])
        \<in> set (cacheStorage (sw_activate example_platform cached_browser))
   \<and> version_tag ''images'' = None
   \<and> (''images'', []) \<in> set (cacheStorage cached_browser)
   \<and> (''images'', []) \<in> set (cacheStorage (sw_activate example_platform cached_browser))"
  using activate_deletes_old_versions[of example_platform cached_browser]
  by (simp add: version_tag_def VERSION_def cached_browser_def caches_keys_def
      static_cache_name_def)
section \<open>The fetch listener\<close>

lemma network_fetches_append [simp]:
  "network_fetches (xs @ ys) = network_fetches xs @ network_fetches ys"
  by (induction xs rule: network_fetches.induct) simp_all

lemma responses_append [simp]: "responses (xs @ ys) = responses xs @ responses ys"
  by (induction xs rule: responses.induct) simp_all

lemma push_subscribes_append [simp]:
  "push_subscribes (xs @ ys) = push_subscribes xs @ push_subscribes ys"
  by (induction xs rule: push_subscribes.induct) simp_all

lemma shown_notifications_append [simp]:
  "shown_notifications (xs @ ys) = shown_notifications xs @ shown_notifications ys"
  by (induction xs rule: shown_notifications.induct) simp_all

lemma navigation_messages_append [simp]:
  "navigation_messages (xs @ ys) = navigation_messages xs @ navigation_messages ys"
  by (induction xs rule: navigation_messages.induct) simp_all

lemma observe_PostMessages [simp]:
  "network_fetches (map (\<lambda>c. PostMessage c (f c)) cs) = []"
  "responses (map (\<lambda>c. PostMessage c (f c)) cs) = []"
  "push_subscribes (map (\<lambda>c. PostMessage c (f c)) cs) = []"
  "shown_notifications (map (\<lambda>c. PostMessage c (f c)) cs) = []"
  by (induction cs) simp_all

lemma observe_log [simp]:
  "network_fetches (log_effects P m) = []"
  "responses (log_effects P m) = []"
  "push_subscribes (log_effects P m) = []"
  "shown_notifications (log_effects P m) = []"
  "navigation_messages (log_effects P m) = []"
  by (simp_all add: log_effects_def)

lemma navigation_messages_log_posts [simp]:
  "navigation_messages
     (map (\<lambda>c. PostMessage c (JObj [(''type'', JStr ''log''), (''message'', JStr m)])) cs) = []"
  by (induction cs) simp_all

lemma navigation_messages_nav_posts [simp]:
  "navigation_messages (map (\<lambda>c. PostMessage c (navigation_message r)) cs)
     = map (\<lambda>c. (c, navigation_message r)) cs"
  by (induction cs) (simp_all add: navigation_message_def)

lemma observe_swLog [simp]:
  "network_fetches (swLog_effects P m) = []"
  "responses (swLog_effects P m) = []"
  "push_subscribes (swLog_effects P m) = []"
  "shown_notifications (swLog_effects P m) = []"
  "navigation_messages (swLog_effects P m) = []"
  by (simp_all add: swLog_effects_def)

lemma sw_logNavigationToServer_trace:
  "\<exists>xs. trace (sw_logNavigationToServer P url referrer B) = trace B @ xs
      \<and> navigation_posts xs =
          [sw_navigation_body P url referrer
             (case getSubscription B of Some s \<Rightarrow> JStr (endpoint s)
              | None \<Rightarrow> JStr ''not-available-in-sw'')]
      \<and> network_fetches xs = [] \<and> responses xs = [] \<and> push_subscribes xs = []
      \<and> shown_notifications xs = [] \<and> navigation_messages xs = []"
  by (auto simp: sw_logNavigationToServer_def Let_def split: sum.splits)

lemma sw_logNavigationToServer_state [simp]:
  "subscriptions (sw_logNavigationToServer P url referrer B) = subscriptions B"
  "localStorage (sw_logNavigationToServer P url referrer B) = localStorage B"
  "cacheStorage (sw_logNavigationToServer P url referrer B) = cacheStorage B"
  by (auto simp: sw_logNavigationToServer_def Let_def split: sum.splits)

lemma track_fetch_state [simp]:
  "subscriptions (track_fetch P r B) = subscriptions B"
  "localStorage (track_fetch P r B) = localStorage B"
  "cacheStorage (track_fetch P r B) = cacheStorage B"
  by (auto simp: track_fetch_def Let_def)

lemma track_fetch_trace:
  "\<exists>xs. trace (track_fetch P r B) = trace B @ xs
      \<and> network_fetches xs = [] \<and> responses xs = [] \<and> push_subscribes xs = []
      \<and> shown_notifications xs = []
      \<and> navigation_messages xs =
          (if is_tracked_navigation r
           then map (\<lambda>c. (c, navigation_message r)) (controlled_clients P) else [])
      \<and> navigation_posts xs =
          (if is_tracked_navigation r
           then [sw_navigation_body P (JStr (req_url r)) (JStr (req_referrer r))
                   (case getSubscription B of Some s \<Rightarrow> JStr (endpoint s)
                    | None \<Rightarrow> JStr ''not-available-in-sw'')]
           else [])"
proof (cases "is_tracked_navigation r")
  case True
  define B1 where "B1 = (if \<not> str_includes (req_pathname r) ''/log-navigation''
                   \<and> \<not> str_includes (req_pathname r) ''/subscribe''
                then swLog P (''Fetch event: '' @ req_pathname r) B else B)"
  define B3 where "B3 = fold (\<lambda>client. emit (PostMessage client (navigation_message r)))
                         (controlled_clients P)
                         (swLog P (''Vercel app navigation detected: '' @ req_url r) B1)"
  have t: "track_fetch P r B = sw_logNavigationToServer P (JStr (req_url r)) (JStr (req_referrer r)) B3"
    using True by (simp add: track_fetch_def Let_def B1_def B3_def)
  have "\<exists>ys. trace B3 = trace B @ ys \<and> network_fetches ys = [] \<and> responses ys = []
      \<and> push_subscribes ys = [] \<and> shown_notifications ys = []
      \<and> navigation_messages ys = map (\<lambda>c. (c, navigation_message r)) (controlled_clients P)
      \<and> navigation_posts ys = []"
    by (auto simp: B3_def B1_def)
  then obtain ys where ys: "trace B3 = trace B @ ys" "network_fetches ys = []" "responses ys = []"
      "push_subscribes ys = []" "shown_notifications ys = []"
      "navigation_messages ys = map (\<lambda>c. (c, navigation_message r)) (controlled_clients P)"
      "navigation_posts ys = []"
    by blast
  have g: "getSubscription B3 = getSubscription B"
    by (simp add: B3_def B1_def getSubscription_def)
  from sw_logNavigationToServer_trace[of P "JStr (req_url r)" "JStr (req_referrer r)" B3]
  obtain zs where zs: "trace (sw_logNavigationToServer P (JStr (req_url r)) (JStr (req_referrer r)) B3) = trace B3 @ zs"
     "navigation_posts zs =
          [sw_navigation_body P (JStr (req_url r)) (JStr (req_referrer r))
             (case getSubscription B3 of Some s \<Rightarrow> JStr (endpoint s)
              | None \<Rightarrow> JStr ''not-available-in-sw'')]"
      "network_fetches zs = []" "responses zs = []" "push_subscribes zs = []"
      "shown_notifications zs = []" "navigation_messages zs = []"
    by blast
  show ?thesis
    apply (rule exI[of _ "ys @ zs"])
    using True t ys zs g by simp
next
  case False
  then show ?thesis by (simp add: track_fetch_def Let_def)
qed

lemma trace_cache_put [simp]: "trace (cache_put name u resp B) = trace B"
  and subscriptions_cache_put [simp]: "subscriptions (cache_put name u resp B) = subscriptions B"
  and localStorage_cache_put [simp]: "localStorage (cache_put name u resp B) = localStorage B"
  by (simp_all add: cache_put_def caches_open_def Let_def)

lemma respond_fetch_trace:
  "\<exists>ys. trace (respond_fetch P r B) = trace B @ ys
      \<and> network_fetches ys = (case caches_match r B of Some c \<Rightarrow> [] | None \<Rightarrow> [r])
      \<and> responses ys =
          (case caches_match r B of Some c \<Rightarrow> [c]
           | None \<Rightarrow> (case network P (req_method r) (req_url r) of
                        Inl e \<Rightarrow> [] | Inr resp \<Rightarrow> [resp]))
      \<and> push_subscribes ys = [] \<and> shown_notifications ys = []
      \<and> navigation_messages ys = [] \<and> navigation_posts ys = []"
  by (auto simp: respond_fetch_def Let_def split: option.splits sum.splits)

lemma respond_fetch_state [simp]:
  "subscriptions (respond_fetch P r B) = subscriptions B"
  "localStorage (respond_fetch P r B) = localStorage B"
  by (auto simp: respond_fetch_def Let_def split: option.splits sum.splits)

lemma respond_fetch_cacheStorage:
  "cacheStorage (respond_fetch P r B) =
     (case caches_match r B of Some c \<Rightarrow> cacheStorage B
      | None \<Rightarrow> (case network P (req_method r) (req_url r) of
                   Inl e \<Rightarrow> cacheStorage B
                 | Inr resp \<Rightarrow>
                     if skips_caching r then cacheStorage B
                     else cacheStorage (cache_put static_cache_name (req_url r) resp B)))"
  by (auto simp: respond_fetch_def Let_def cache_put_def caches_open_def caches_keys_def
      split: option.splits sum.splits)

lemma caches_match_track [simp]: "caches_match r (track_fetch P r' B) = caches_match r B"
  by (simp add: caches_match_def)

lemma cache_put_track:
  "cacheStorage (cache_put name u resp (track_fetch P r B)) = cacheStorage (cache_put name u resp B)"
  by (simp add: cache_put_def caches_open_def caches_keys_def Let_def)

lemma sw_fetch_trace:
  "\<exists>zs. trace (sw_fetch P r B) = trace B @ zs
      \<and> network_fetches zs = (case caches_match r B of Some c \<Rightarrow> [] | None \<Rightarrow> [r])
      \<and> responses zs =
          (case caches_match r B of Some c \<Rightarrow> [c]
           | None \<Rightarrow> (case network P (req_method r) (req_url r) of
                        Inl e \<Rightarrow> [] | Inr resp \<Rightarrow> [resp]))
      \<and> push_subscribes zs = [] \<and> shown_notifications zs = []
      \<and> navigation_messages zs =
          (if is_tracked_navigation r
           then map (\<lambda>c. (c, navigation_message r)) (controlled_clients P) else [])
      \<and> navigation_posts zs =
          (if is_tracked_navigation r
           then [sw_navigation_body P (JStr (req_url r)) (JStr (req_referrer r))
                   (case getSubscription B of Some s \<Rightarrow> JStr (endpoint s)
                    | None \<Rightarrow> JStr ''not-available-in-sw'')]
           else [])"
proof -
  from track_fetch_trace[of P r B] obtain xs where xs:
    "trace (track_fetch P r B) = trace B @ xs"
    "network_fetches xs = []" "responses xs = []" "push_subscribes xs = []"
    "shown_notifications xs = []"
    "navigation_messages xs =
          (if is_tracked_navigation r
           then map (\<lambda>c. (c, navigation_message r)) (controlled_clients P) else [])"
    "navigation_posts xs =
          (if is_tracked_navigation r
           then [sw_navigation_body P (JStr (req_url r)) (JStr (req_referrer r))
                   (case getSubscription B of Some s \<Rightarrow> JStr (endpoint s)
                    | None \<Rightarrow> JStr ''not-available-in-sw'')]
           else [])"
    by blast
  from respond_fetch_trace[of P r "track_fetch P r B"] obtain ys where ys:
    "trace (respond_fetch P r (track_fetch P r B)) = trace (track_fetch P r B) @ ys"
    "network_fetches ys = (case caches_match r B of Some c \<Rightarrow> [] | None \<Rightarrow> [r])"
    "responses ys =
          (case caches_match r B of Some c \<Rightarrow> [c]
           | None \<Rightarrow> (case network P (req_method r) (req_url r) of
                        Inl e \<Rightarrow> [] | Inr resp \<Rightarrow> [resp]))"
    "push_subscribes ys = []" "shown_notifications ys = []"
    "navigation_messages ys = []" "navigation_posts ys = []"
    by auto
  show ?thesis
    apply (rule exI[of _ "xs @ ys"])
    using xs ys by (simp add: sw_fetch_def)
qed

lemma sw_fetch_cacheStorage:
  "cacheStorage (sw_fetch P r B) =
     (case caches_match r B of Some c \<Rightarrow> cacheStorage B
      | None \<Rightarrow> (case network P (req_method r) (req_url r) of
                   Inl e \<Rightarrow> cacheStorage B
                 | Inr resp \<Rightarrow>
                     if skips_caching r then cacheStorage B
                     else cacheStorage (cache_put static_cache_name (req_url r) resp B)))"
  by (auto simp: sw_fetch_def respond_fetch_cacheStorage cache_put_track
      split: option.splits sum.splits)

lemma map_of_entries_put: "map_of (entries_put u r entries) u = Some r"
proof -
  have "map_of (filter (\<lambda>(k, v). k \<noteq> u) entries) u = None"
    by (induction entries) auto
  then show ?thesis by (simp add: entries_put_def map_add_def)
qed

lemma first_entry_put:
  "first_entry buckets u = None \<Longrightarrow> name \<in> fst ` set buckets \<Longrightarrow>
   first_entry (map (\<lambda>(n, entries). if n = name then (n, entries_put u r entries)
                                      else (n, entries)) buckets) u = Some r"
proof (induction buckets)
  case Nil
  then show ?case by simp
next
  case (Cons b buckets)
  obtain n entries where b: "b = (n, entries)" by (cases b)
  from Cons.prems(1) b have none: "map_of entries u = None" and rest: "first_entry buckets u = None"
    by (auto split: option.splits)
  show ?case
  proof (cases "n = name")
    case True
    then show ?thesis using b by (simp add: map_of_entries_put)
  next
    case False
    with Cons.prems(2) b have "name \<in> fst ` set buckets" by auto
    from Cons.IH[OF rest this] show ?thesis using b False none by simp
  qed
qed

lemma first_entry_snoc_empty:
  "first_entry buckets u = None \<Longrightarrow> first_entry (buckets @ [(name, [])]) u = None"
  by (induction buckets) (auto split: option.splits)

lemma first_entry_cache_put:
  assumes "first_entry (cacheStorage B) u = None"
  shows "first_entry (cacheStorage (cache_put name u r B)) u = Some r"
proof (cases "name \<in> set (caches_keys B)")
  case True
  then have "name \<in> fst ` set (cacheStorage B)" by (simp add: caches_keys_def)
  from first_entry_put[OF assms this] True show ?thesis
    by (simp add: cache_put_def caches_open_def Let_def)
next
  case False
  have "name \<in> fst ` set (cacheStorage B @ [(name, [])])" by simp
  from first_entry_put[OF first_entry_snoc_empty[OF assms] this] False show ?thesis
    by (simp add: cache_put_def caches_open_def Let_def)
qed

lemma caches_match_after_put:
  assumes "caches_match r B = None" and "req_method r = ''GET''"
    and "cacheStorage B' = cacheStorage (cache_put name (req_url r) resp B)"
  shows "caches_match r B' = Some resp"
  using assms first_entry_cache_put[of B "req_url r" name resp]
  by (simp add: caches_match_def)

text \<open>
  C3, as amended. When the request matches a cached entry, the worker responds with the
  cached response, makes no network fetch of the request and leaves the caches as they
  are. Otherwise it makes exactly one network fetch of the request; when that fails it
  stores nothing, and when it yields a response the worker responds with it and stores
  it in the current bucket if and only if the method is \<open>GET\<close>, the path does not
  contain \<open>/api/\<close> and the host is not the server's. The origin of the request plays
  no part.
\<close>

theorem fetch_cache_first_then_network:
  "(\<forall>cached. caches_match r B = Some cached \<longrightarrow>
        responses (effects_of B (sw_fetch P r B)) = [cached]
      \<and> network_fetches (effects_of B (sw_fetch P r B)) = []
      \<and> cacheStorage (sw_fetch P r B) = cacheStorage B)
   \<and> (caches_match r B = None \<longrightarrow>
        network_fetches (effects_of B (sw_fetch P r B)) = [r]
      \<and> (\<forall>e. network P (req_method r) (req_url r) = Inl e \<longrightarrow>
            responses (effects_of B (sw_fetch P r B)) = []
          \<and> cacheStorage (sw_fetch P r B) = cacheStorage B)
      \<and> (\<forall>resp. network P (req_method r) (req_url r) = Inr resp \<longrightarrow>
            responses (effects_of B (sw_fetch P r B)) = [resp]
          \<and> (if req_method r = ''GET'' \<and> \<not> str_includes (req_pathname r) ''/api/''
                  \<and> req_hostname r \<noteq> SERVER_HOSTNAME
              then cacheStorage (sw_fetch P r B)
                     = cacheStorage (cache_put static_cache_name (req_url r) resp B)
                   \<and> caches_match r (sw_fetch P r B) = Some resp
              else cacheStorage (sw_fetch P r B) = cacheStorage B
                   \<and> caches_match r (sw_fetch P r B) = None)))"
proof -
  from sw_fetch_trace[of P r B] obtain zs where zs:
    "trace (sw_fetch P r B) = trace B @ zs"
    "network_fetches zs = (case caches_match r B of Some c \<Rightarrow> [] | None \<Rightarrow> [r])"
    "responses zs =
          (case caches_match r B of Some c \<Rightarrow> [c]
           | None \<Rightarrow> (case network P (req_method r) (req_url r) of
                        Inl e \<Rightarrow> [] | Inr resp \<Rightarrow> [resp]))"
    by blast
  have eff: "effects_of B (sw_fetch P r B) = zs"
    using zs(1) by (rule effects_of_extend)
  have hit: "\<forall>cached. caches_match r B = Some cached \<longrightarrow>
        responses zs = [cached] \<and> network_fetches zs = []
      \<and> cacheStorage (sw_fetch P r B) = cacheStorage B"
    using zs by (simp add: sw_fetch_cacheStorage)
  have miss: "caches_match r B = None \<longrightarrow> network_fetches zs = [r]"
    using zs by simp
  have fail: "caches_match r B = None \<longrightarrow> (\<forall>e. network P (req_method r) (req_url r) = Inl e \<longrightarrow>
            responses zs = [] \<and> cacheStorage (sw_fetch P r B) = cacheStorage B)"
    using zs by (simp add: sw_fetch_cacheStorage)
  have ok: "caches_match r B = None \<longrightarrow> (\<forall>resp. network P (req_method r) (req_url r) = Inr resp \<longrightarrow>
            responses zs = [resp]
          \<and> (if req_method r = ''GET'' \<and> \<not> str_includes (req_pathname r) ''/api/''
                  \<and> req_hostname r \<noteq> SERVER_HOSTNAME
              then cacheStorage (sw_fetch P r B)
                     = cacheStorage (cache_put static_cache_name (req_url r) resp B)
                   \<and> caches_match r (sw_fetch P r B) = Some resp
              else cacheStorage (sw_fetch P r B) = cacheStorage B
                   \<and> caches_match r (sw_fetch P r B) = None))"
  proof (intro impI allI)
    fix resp
    assume m: "caches_match r B = None" and n: "network P (req_method r) (req_url r) = Inr resp"
    show "responses zs = [resp]
          \<and> (if req_method r = ''GET'' \<and> \<not> str_includes (req_pathname r) ''/api/''
                  \<and> req_hostname r \<noteq> SERVER_HOSTNAME
              then cacheStorage (sw_fetch P r B)
                     = cacheStorage (cache_put static_cache_name (req_url r) resp B)
                   \<and> caches_match r (sw_fetch P r B) = Some resp
              else cacheStorage (sw_fetch P r B) = cacheStorage B
                   \<and> caches_match r (sw_fetch P r B) = None)"
    proof (cases "skips_caching r")
      case True
      then have c: "cacheStorage (sw_fetch P r B) = cacheStorage B"
        using m n by (simp add: sw_fetch_cacheStorage)
      then have "caches_match r (sw_fetch P r B) = None"
        using m by (auto simp: caches_match_def split: if_splits)
      with True c zs m n show ?thesis by (auto simp: skips_caching_def)
    next
      case False
      then have c: "cacheStorage (sw_fetch P r B)
                     = cacheStorage (cache_put static_cache_name (req_url r) resp B)"
        using m n by (simp add: sw_fetch_cacheStorage)
      from False have g: "req_method r = ''GET''" by (simp add: skips_caching_def)
      from caches_match_after_put[OF m g c] False c zs m n show ?thesis
        by (auto simp: skips_caching_def)
    qed
  qed
  show ?thesis unfolding eff using hit miss fail ok by blast
qed

lemma foreign_request_facts:
  "caches_match foreign_request fresh_browser = None"
  "network online_platform (req_method foreign_request) (req_url foreign_request) = Inr example_response"
  "req_method foreign_request = ''GET''"
  "\<not> str_includes (req_pathname foreign_request) ''/api/''"
  "req_hostname foreign_request \<noteq> SERVER_HOSTNAME"
  "req_origin foreign_request \<noteq> worker_origin online_platform"
  by (simp_all add: caches_match_def foreign_request_def fresh_browser_def online_platform_def
      example_platform_def SERVER_HOSTNAME_def)

lemma own_request_cached: "caches_match own_request cached_browser = Some example_response"
  by (simp add: caches_match_def own_request_def cached_browser_def)

theorem fetch_cache_first_then_network_witness:
  "caches_match own_request cached_browser = Some example_response
   \<and> responses (effects_of cached_browser (sw_fetch online_platform own_request cached_browser))
       = [example_response]
   \<and> network_fetches (effects_of cached_browser (sw_fetch online_platform own_request cached_browser))
       = []
   \<and> caches_match foreign_request fresh_browser = None
   \<and> network online_platform (req_method foreign_request) (req_url foreign_request) = Inr example_response
   \<and> network_fetches (effects_of fresh_browser (sw_fetch online_platform foreign_request fresh_browser))
       = [foreign_request]
   \<and> responses (effects_of fresh_browser (sw_fetch online_platform foreign_request fresh_browser))
       = [example_response]
   \<and> caches_match foreign_request (sw_fetch online_platform foreign_request fresh_browser)
       = Some example_response"
  using fetch_cache_first_then_network[of foreign_request fresh_browser online_platform]
    fetch_cache_first_then_network[of own_request cached_browser online_platform]
    foreign_request_facts own_request_cached
  by simp

text \<open>
  C3 as stated fails: the response to a \<open>GET\<close> request to another origin (neither
  an API path nor the server host) is stored.
\<close>

theorem fetch_caches_cross_origin_response:
  "req_origin foreign_request \<noteq> worker_origin online_platform
   \<and> caches_match foreign_request fresh_browser = None
   \<and> network_fetches (effects_of fresh_browser (sw_fetch online_platform foreign_request fresh_browser))
       = [foreign_request]
   \<and> caches_match foreign_request (sw_fetch online_platform foreign_request fresh_browser)
       = Some example_response"
proof -
  have s: "\<not> skips_caching foreign_request"
    using foreign_request_facts by (simp add: skips_caching_def)
  have c: "cacheStorage (sw_fetch online_platform foreign_request fresh_browser)
             = cacheStorage (cache_put static_cache_name (req_url foreign_request) example_response fresh_browser)"
    using s foreign_request_facts(1,2) by (simp add: sw_fetch_cacheStorage)
  from sw_fetch_trace[of online_platform foreign_request fresh_browser] obtain zs where zs:
    "trace (sw_fetch online_platform foreign_request fresh_browser) = trace fresh_browser @ zs"
    "network_fetches zs = (case caches_match foreign_request fresh_browser of Some c \<Rightarrow> [] | None \<Rightarrow> [foreign_request])"
    by blast
  have "effects_of fresh_browser (sw_fetch online_platform foreign_request fresh_browser) = zs"
    using zs(1) by (rule effects_of_extend)
  then show ?thesis
    using zs(2) foreign_request_facts caches_match_after_put[OF foreign_request_facts(1) foreign_request_facts(3) c] by simp
qed


text \<open>
  C8. For a fetch event whose request is a \<open>GET\<close> in \<open>navigate\<close> mode to a host
  name ending in \<open>vercel.app\<close>, the worker posts the navigation message to every
  controlled client and its reporter posts the navigation to the server; for every
  other fetch event it posts no navigation message and reports nothing.
\<close>

theorem fetch_tracks_vercel_navigation:
  "if endsWith (req_hostname r) ''vercel.app'' \<and> req_method r = ''GET''
        \<and> req_mode r = ''navigate''
   then navigation_messages (effects_of B (sw_fetch P r B))
          = map (\<lambda>c. (c, navigation_message r)) (controlled_clients P)
        \<and> navigation_posts (effects_of B (sw_fetch P r B))
          = [sw_navigation_body P (JStr (req_url r)) (JStr (req_referrer r))
               (case getSubscription B of Some s \<Rightarrow> JStr (endpoint s)
                | None \<Rightarrow> JStr ''not-available-in-sw'')]
   else navigation_messages (effects_of B (sw_fetch P r B)) = []
        \<and> navigation_posts (effects_of B (sw_fetch P r B)) = []"
proof -
  from sw_fetch_trace[of P r B] obtain zs where zs:
    "trace (sw_fetch P r B) = trace B @ zs"
    "navigation_messages zs =
          (if is_tracked_navigation r
           then map (\<lambda>c. (c, navigation_message r)) (controlled_clients P) else [])"
    "navigation_posts zs =
          (if is_tracked_navigation r
           then [sw_navigation_body P (JStr (req_url r)) (JStr (req_referrer r))
                   (case getSubscription B of Some s \<Rightarrow> JStr (endpoint s)
                    | None \<Rightarrow> JStr ''not-available-in-sw'')]
           else [])"
    by blast
  have eff: "effects_of B (sw_fetch P r B) = zs"
    using zs(1) by (rule effects_of_extend)
  show ?thesis unfolding eff using zs(2,3) by (simp add: is_tracked_navigation_def)
qed

lemma navigation_request_facts:
  "endsWith (req_hostname navigation_request) ''vercel.app''"
  "req_method navigation_request = ''GET''"
  "req_mode navigation_request = ''navigate''"
  "controlled_clients example_platform = [example_client]"
  "getSubscription fresh_browser = None"
  by (simp_all add: navigation_request_def endsWith_def example_platform_def
      getSubscription_def fresh_browser_def)

theorem fetch_tracks_vercel_navigation_witness:
  "endsWith (req_hostname navigation_request) ''vercel.app''
   \<and> req_method navigation_request = ''GET'' \<and> req_mode navigation_request = ''navigate''
   \<and> navigation_messages (effects_of fresh_browser (sw_fetch example_platform navigation_request fresh_browser))
       = [(example_client, navigation_message navigation_request)]
   \<and> navigation_posts (effects_of fresh_browser (sw_fetch example_platform navigation_request fresh_browser))
       = [sw_navigation_body example_platform (JStr (req_url navigation_request))
            (JStr (req_referrer navigation_request)) (JStr ''not-available-in-sw'')]
   \<and> req_mode own_request \<noteq> ''navigate''
   \<and> navigation_messages (effects_of fresh_browser (sw_fetch example_platform own_request fresh_browser)) = []
   \<and> navigation_posts (effects_of fresh_browser (sw_fetch example_platform own_request fresh_browser)) = []"
proof -
  have o: "req_mode own_request \<noteq> ''navigate''" by (simp add: own_request_def)
  show ?thesis
    using fetch_tracks_vercel_navigation[of navigation_request fresh_browser example_platform]
      fetch_tracks_vercel_navigation[of own_request fresh_browser example_platform] navigation_request_facts o
    by simp
qed
section \<open>Push subscription\<close>

lemma subscription_posts_append [simp]:
  "subscription_posts (xs @ ys) = subscription_posts xs @ subscription_posts ys"
  by (induction xs rule: subscription_posts.induct) simp_all

lemma subscription_posts_log [simp]: "subscription_posts (log_effects P m) = []"
  by (simp add: log_effects_def)

lemma api_gets_append [simp]: "api_gets (xs @ ys) = api_gets xs @ api_gets ys"
  by (induction xs rule: api_gets.induct) simp_all

lemma api_gets_log [simp]: "api_gets (log_effects P m) = []"
  by (simp add: log_effects_def)

lemma fst_fetch_vapid_key: "fst (fetch_vapid_key P B) = vapid_key_in_use P"
  by (simp add: fetch_vapid_key_def vapid_key_in_use_def Let_def split: option.splits)

lemma snd_fetch_vapid_key:
  "subscriptions (snd (fetch_vapid_key P B)) = subscriptions B"
  "localStorage (snd (fetch_vapid_key P B)) = localStorage B"
  "cacheStorage (snd (fetch_vapid_key P B)) = cacheStorage B"
  "\<exists>xs. trace (snd (fetch_vapid_key P B)) = trace B @ xs \<and> push_subscribes xs = []
      \<and> subscription_posts xs = [] \<and> navigation_posts xs = []
      \<and> api_gets xs = [SERVER_URL @ ''/vapidPublicKey'']"
  by (auto simp: fetch_vapid_key_def Let_def split: option.splits)

lemma sendSubscriptionToServer_state [simp]:
  "subscriptions (sendSubscriptionToServer P sub B) = subscriptions B"
  "localStorage (sendSubscriptionToServer P sub B) = localStorage B"
  "cacheStorage (sendSubscriptionToServer P sub B) = cacheStorage B"
  by (auto simp: sendSubscriptionToServer_def Let_def split: sum.splits)

lemma sendSubscriptionToServer_trace:
  "\<exists>xs. trace (sendSubscriptionToServer P sub B) = trace B @ xs \<and> push_subscribes xs = []
      \<and> subscription_posts xs = [subscribe_body P sub] \<and> api_gets xs = []"
  by (auto simp: sendSubscriptionToServer_def Let_def subscribe_body_def split: sum.splits)

lemma report_and_save_result:
  "fst (report_and_save P sub B) = Some sub"
  "subscriptions (snd (report_and_save P sub B)) = subscriptions B"
  "localStorage (snd (report_and_save P sub B)) =
     (localStorage B)(''pushSubscription'' \<mapsto> json_stringify P (subscription_json sub))"
  "cacheStorage (snd (report_and_save P sub B)) = cacheStorage B"
  by (simp_all add: report_and_save_def Let_def)

lemma report_and_save_trace:
  "\<exists>xs. trace (snd (report_and_save P sub B)) = trace B @ xs \<and> push_subscribes xs = []
      \<and> subscription_posts xs = [subscribe_body P sub] \<and> api_gets xs = []"
  using sendSubscriptionToServer_trace[of P sub B]
  by (auto simp: report_and_save_def Let_def)

text \<open>subscribeUserToPush with an existing subscription.\<close>

lemma subscribe_existing:
  assumes caps: "has_serviceWorker P" "has_PushManager P"
    and sub: "getSubscription B = Some sub"
    and key: "urlBase64ToUint8Array (vapid_key_in_use P) = Inr key"
  shows "fst (subscribeUserToPush P B) = Some sub"
    and "subscriptions (snd (subscribeUserToPush P B)) = subscriptions B"
    and "localStorage (snd (subscribeUserToPush P B)) =
           (localStorage B)(''pushSubscription'' \<mapsto> json_stringify P (subscription_json sub))"
    and "\<exists>xs. trace (snd (subscribeUserToPush P B)) = trace B @ xs \<and> push_subscribes xs = []
           \<and> subscription_posts xs = [subscribe_body P sub]
           \<and> api_gets xs = [SERVER_URL @ ''/vapidPublicKey'']"
proof -
  define B1 where "B1 = log P ''Service worker is ready for push subscription'' B"
  define B2 where "B2 = snd (fetch_vapid_key P B1)"
  define B3 where "B3 = log P ''User already subscribed to push notifications'' B2"
  have fk: "fetch_vapid_key P B1 = (vapid_key_in_use P, B2)"
    using fst_fetch_vapid_key[of P B1] by (cases "fetch_vapid_key P B1") (simp add: B2_def)
  have s2: "subscriptions B2 = subscriptions B" "localStorage B2 = localStorage B"
    by (simp_all add: B2_def B1_def snd_fetch_vapid_key)
  have g2: "getSubscription B2 = Some sub"
    using sub s2 by (simp add: getSubscription_def)
  have eq: "subscribeUserToPush P B = report_and_save P sub B3"
    using caps by (simp add: subscribeUserToPush_def Let_def B1_def[symmetric] fk key g2 B3_def)
  from snd_fetch_vapid_key(4)[of P B1] obtain xs where xs:
    "trace B2 = trace B1 @ xs" "push_subscribes xs = []" "subscription_posts xs = []"
    "api_gets xs = [SERVER_URL @ ''/vapidPublicKey'']"
    unfolding B2_def by blast
  from report_and_save_trace[of P sub B3] obtain ys where ys:
    "trace (snd (report_and_save P sub B3)) = trace B3 @ ys" "push_subscribes ys = []"
    "subscription_posts ys = [subscribe_body P sub]" "api_gets ys = []"
    by blast
  show "fst (subscribeUserToPush P B) = Some sub"
    by (simp add: eq report_and_save_result)
  show "subscriptions (snd (subscribeUserToPush P B)) = subscriptions B"
    by (simp add: eq report_and_save_result B3_def s2)
  show "localStorage (snd (subscribeUserToPush P B)) =
           (localStorage B)(''pushSubscription'' \<mapsto> json_stringify P (subscription_json sub))"
    by (simp add: eq report_and_save_result B3_def s2)
  show "\<exists>xs. trace (snd (subscribeUserToPush P B)) = trace B @ xs \<and> push_subscribes xs = []
           \<and> subscription_posts xs = [subscribe_body P sub]
           \<and> api_gets xs = [SERVER_URL @ ''/vapidPublicKey'']"
    apply (rule exI[of _ "log_effects P ''Service worker is ready for push subscription'' @ xs
          @ log_effects P ''User already subscribed to push notifications'' @ ys"])
    using xs ys by (simp add: eq B3_def B1_def)
qed

text \<open>subscribeUserToPush with no subscription.\<close>

lemma subscribe_new:
  assumes caps: "has_serviceWorker P" "has_PushManager P"
    and sub: "getSubscription B = None"
    and key: "urlBase64ToUint8Array (vapid_key_in_use P) = Inr key"
  shows "\<exists>xs. trace (snd (subscribeUserToPush P B)) = trace B @ xs \<and> push_subscribes xs = [key]"
    and "push_subscribe P key = Inr new \<Longrightarrow> fst (subscribeUserToPush P B) = Some new"
    and "push_subscribe P key = Inr new \<Longrightarrow>
           subscriptions (snd (subscribeUserToPush P B)) = subscriptions B @ [new]"
    and "push_subscribe P key = Inl e \<Longrightarrow> fst (subscribeUserToPush P B) = None"
    and "push_subscribe P key = Inl e \<Longrightarrow>
           subscriptions (snd (subscribeUserToPush P B)) = subscriptions B"
proof -
  define B1 where "B1 = log P ''Service worker is ready for push subscription'' B"
  define B2 where "B2 = snd (fetch_vapid_key P B1)"
  define B3 where "B3 = emit (PushSubscribe True key) B2"
  have fk: "fetch_vapid_key P B1 = (vapid_key_in_use P, B2)"
    using fst_fetch_vapid_key[of P B1] by (cases "fetch_vapid_key P B1") (simp add: B2_def)
  have s2: "subscriptions B2 = subscriptions B"
    by (simp_all add: B2_def B1_def snd_fetch_vapid_key)
  have g2: "getSubscription B2 = None"
    using sub s2 by (simp add: getSubscription_def)
  have eq: "subscribeUserToPush P B =
      (case push_subscribe P key of
         Inl error \<Rightarrow> (None, log P (''Error subscribing to push: '' @ error_text error) B3)
       | Inr sub \<Rightarrow> report_and_save P sub
                     (log P ''User subscribed to push notifications''
                        (B3\<lparr>subscriptions := subscriptions B3 @ [sub]\<rparr>)))"
    using caps
    by (simp add: subscribeUserToPush_def Let_def B1_def[symmetric] fk key g2 B3_def
        split: sum.splits)
  from snd_fetch_vapid_key(4)[of P B1] obtain xs where xs:
    "trace B2 = trace B1 @ xs" "push_subscribes xs = []"
    unfolding B2_def by blast
  show "\<exists>xs. trace (snd (subscribeUserToPush P B)) = trace B @ xs \<and> push_subscribes xs = [key]"
  proof (cases "push_subscribe P key")
    case (Inl e)
    show ?thesis
      apply (rule exI[of _ "log_effects P ''Service worker is ready for push subscription'' @ xs
          @ [PushSubscribe True key] @ log_effects P (''Error subscribing to push: '' @ error_text e)"])
      using xs Inl by (simp add: eq B3_def B1_def)
  next
    case (Inr new)
    from report_and_save_trace[of P new "log P ''User subscribed to push notifications''
                        (B3\<lparr>subscriptions := subscriptions B3 @ [new]\<rparr>)"]
    obtain ys where ys:
      "trace (snd (report_and_save P new (log P ''User subscribed to push notifications''
                        (B3\<lparr>subscriptions := subscriptions B3 @ [new]\<rparr>))))
         = trace (log P ''User subscribed to push notifications''
                        (B3\<lparr>subscriptions := subscriptions B3 @ [new]\<rparr>)) @ ys"
      "push_subscribes ys = []"
      by blast
    show ?thesis
      apply (rule exI[of _ "log_effects P ''Service worker is ready for push subscription'' @ xs
          @ [PushSubscribe True key] @ log_effects P ''User subscribed to push notifications'' @ ys"])
      using xs ys Inr by (simp add: eq B3_def B1_def)
  qed
  show "push_subscribe P key = Inr new \<Longrightarrow> fst (subscribeUserToPush P B) = Some new"
    by (simp add: eq report_and_save_result)
  show "push_subscribe P key = Inr new \<Longrightarrow>
           subscriptions (snd (subscribeUserToPush P B)) = subscriptions B @ [new]"
    by (simp add: eq report_and_save_result B3_def s2)
  show "push_subscribe P key = Inl e \<Longrightarrow> fst (subscribeUserToPush P B) = None"
    by (simp add: eq)
  show "push_subscribe P key = Inl e \<Longrightarrow>
           subscriptions (snd (subscribeUserToPush P B)) = subscriptions B"
    by (simp add: eq B3_def s2)
qed
lemma server_key_absent:
  assumes "network P ''GET'' (SERVER_URL @ ''/vapidPublicKey'') = Inl e
     \<or> (\<exists>r. network P ''GET'' (SERVER_URL @ ''/vapidPublicKey'') = Inr r
            \<and> json_parse P (resp_body r) = Inl e)"
  shows "vapid_key_in_use P = hardcoded_vapid_key"
  using assms by (auto simp: vapid_key_in_use_def server_vapid_key_def api_fetch_def)

lemma subscribe_unsupported:
  "\<not> (has_serviceWorker P \<and> has_PushManager P) \<Longrightarrow> fst (subscribeUserToPush P B) = None"
  by (auto simp: subscribeUserToPush_def)

lemma subscribe_bad_key:
  assumes "urlBase64ToUint8Array (vapid_key_in_use P) = Inl e"
  shows "fst (subscribeUserToPush P B) = None"
proof (cases "has_serviceWorker P \<and> has_PushManager P")
  case True
  define B1 where "B1 = log P ''Service worker is ready for push subscription'' B"
  define B2 where "B2 = snd (fetch_vapid_key P B1)"
  have fk: "fetch_vapid_key P B1 = (vapid_key_in_use P, B2)"
    using fst_fetch_vapid_key[of P B1] by (cases "fetch_vapid_key P B1") (simp add: B2_def)
  show ?thesis
    using True assms by (simp add: subscribeUserToPush_def Let_def B1_def[symmetric] fk)
next
  case False
  then show ?thesis by (rule subscribe_unsupported)
qed

lemma subscribe_twice:
  assumes "fst (subscribeUserToPush P B) = Some s"
  shows "fst (subscribeUserToPush P (snd (subscribeUserToPush P B))) = Some s"
proof -
  have caps: "has_serviceWorker P" "has_PushManager P"
    using assms subscribe_unsupported[of P B] by auto
  obtain key where key: "urlBase64ToUint8Array (vapid_key_in_use P) = Inr key"
    using assms subscribe_bad_key[of P _ B] by (cases "urlBase64ToUint8Array (vapid_key_in_use P)") auto
  show ?thesis
  proof (cases "getSubscription B")
    case (Some sub)
    from subscribe_existing[OF caps Some key] assms
    have "s = sub" and "subscriptions (snd (subscribeUserToPush P B)) = subscriptions B"
      by simp_all
    then have "getSubscription (snd (subscribeUserToPush P B)) = Some s"
      using Some by (simp add: getSubscription_def)
    from subscribe_existing(1)[OF caps this key] show ?thesis .
  next
    case None
    then have empty: "subscriptions B = []"
      by (simp add: getSubscription_def split: list.splits)
    show ?thesis
    proof (cases "push_subscribe P key")
      case (Inl e)
      from subscribe_new(4)[OF caps None key Inl] assms show ?thesis by simp
    next
      case (Inr new)
      from subscribe_new(2,3)[OF caps None key Inr] assms empty
      have "s = new" and "subscriptions (snd (subscribeUserToPush P B)) = [new]"
        by simp_all
      then have "getSubscription (snd (subscribeUserToPush P B)) = Some s"
        by (simp add: getSubscription_def)
      from subscribe_existing(1)[OF caps this key] show ?thesis .
    qed
  qed
qed

text \<open>
  C4, as amended. Called when a subscription exists (push supported, and the key in use
  decodes), \<open>subscribeUserToPush\<close> creates no subscription: it does not call
  \<open>pushManager.subscribe\<close>, leaves the profile's subscriptions as they are and returns
  the existing one; a second call returns it again. The call is not free of effects:
  it still fetches the public key from \<open>/vapidPublicKey\<close>, posts the subscription to
  \<open>/subscribe\<close> and writes it to local storage.
\<close>

theorem subscribe_again_returns_existing:
  assumes "has_serviceWorker P" and "has_PushManager P"
    and "getSubscription B = Some sub"
    and "urlBase64ToUint8Array (vapid_key_in_use P) = Inr key"
  shows "fst (subscribeUserToPush P B) = Some sub
     \<and> subscriptions (snd (subscribeUserToPush P B)) = subscriptions B
     \<and> push_subscribes (effects_of B (snd (subscribeUserToPush P B))) = []
     \<and> api_gets (effects_of B (snd (subscribeUserToPush P B)))
         = [SERVER_URL @ ''/vapidPublicKey'']
     \<and> subscription_posts (effects_of B (snd (subscribeUserToPush P B))) = [subscribe_body P sub]
     \<and> localStorage (snd (subscribeUserToPush P B)) ''pushSubscription''
         = Some (json_stringify P (subscription_json sub))
     \<and> fst (subscribeUserToPush P (snd (subscribeUserToPush P B))) = Some sub"
proof -
  note ex = subscribe_existing[OF assms]
  from ex(4) obtain xs where xs: "trace (snd (subscribeUserToPush P B)) = trace B @ xs"
    "push_subscribes xs = []" "subscription_posts xs = [subscribe_body P sub]"
    "api_gets xs = [SERVER_URL @ ''/vapidPublicKey'']"
    by blast
  have eff: "effects_of B (snd (subscribeUserToPush P B)) = xs"
    using xs(1) by (rule effects_of_extend)
  show ?thesis
    using ex(1,2,3) xs(2,3,4) subscribe_twice[OF ex(1)] by (simp add: eff)
qed

lemma example_platform_facts:
  "has_serviceWorker example_platform" "has_PushManager example_platform"
  "network example_platform ''GET'' (SERVER_URL @ ''/vapidPublicKey'') = Inl NetworkError"
  "push_subscribe example_platform k = Inr example_subscription"
  "json_stringify example_platform v = ''{}''"
  by (simp_all add: example_platform_def)

lemma example_key_in_use: "vapid_key_in_use example_platform = hardcoded_vapid_key"
  using server_key_absent[of example_platform NetworkError] example_platform_facts(3) by simp

lemma getSubscription_subscribed: "getSubscription subscribed_browser = Some example_subscription"
  by (simp add: getSubscription_def subscribed_browser_def)

theorem subscribe_again_returns_existing_witness:
  "has_serviceWorker example_platform \<and> has_PushManager example_platform
   \<and> getSubscription subscribed_browser = Some example_subscription
   \<and> fst (subscribeUserToPush example_platform subscribed_browser) = Some example_subscription
   \<and> push_subscribes (effects_of subscribed_browser
        (snd (subscribeUserToPush example_platform subscribed_browser))) = []
   \<and> api_gets (effects_of subscribed_browser
        (snd (subscribeUserToPush example_platform subscribed_browser)))
       = [SERVER_URL @ ''/vapidPublicKey'']
   \<and> subscription_posts (effects_of subscribed_browser
        (snd (subscribeUserToPush example_platform subscribed_browser)))
       = [subscribe_body example_platform example_subscription]"
  using subscribe_again_returns_existing[OF example_platform_facts(1,2) getSubscription_subscribed]
    hardcoded_key_decodes example_platform_facts(1,2) getSubscription_subscribed
  by (simp add: example_key_in_use)


text \<open>
  C4 as stated fails: with a subscription in place the call still fetches
  \<open>/vapidPublicKey\<close>, posts to \<open>/subscribe\<close> and writes the \<open>pushSubscription\<close>
  item of local storage.
\<close>

theorem subscribe_again_has_side_effects:
  "getSubscription subscribed_browser = Some example_subscription
   \<and> fst (subscribeUserToPush example_platform subscribed_browser) = Some example_subscription
   \<and> api_gets (effects_of subscribed_browser
        (snd (subscribeUserToPush example_platform subscribed_browser)))
       = [SERVER_URL @ ''/vapidPublicKey'']
   \<and> subscription_posts (effects_of subscribed_browser
        (snd (subscribeUserToPush example_platform subscribed_browser)))
       = [subscribe_body example_platform example_subscription]
   \<and> localStorage subscribed_browser ''pushSubscription'' = None
   \<and> localStorage (snd (subscribeUserToPush example_platform subscribed_browser))
        ''pushSubscription'' = Some ''{}''"
proof -
  have key: "urlBase64ToUint8Array (vapid_key_in_use example_platform) =
     Inr [4, 109, 77, 126, 177, 195, 131, 1, 8, 197, 238, 0, 10, 167, 156, 126,
          205, 48, 7, 68, 246, 191, 80, 218, 76, 78, 57, 50, 12, 217, 83, 134,
          232, 190, 57, 198, 43, 12, 60, 121, 43, 254, 71, 202, 250, 241, 111,
          203, 153, 93, 214, 76, 140, 220, 112, 173, 53, 11, 97, 66, 192, 206,
          121, 8, 180]"
    using hardcoded_key_decodes by (simp add: example_key_in_use)
  note ex = subscribe_existing[OF example_platform_facts(1,2) getSubscription_subscribed key]
  from ex(4) obtain xs where xs:
    "trace (snd (subscribeUserToPush example_platform subscribed_browser)) = trace subscribed_browser @ xs"
    "subscription_posts xs = [subscribe_body example_platform example_subscription]"
    "api_gets xs = [SERVER_URL @ ''/vapidPublicKey'']"
    by blast
  have eff: "effects_of subscribed_browser (snd (subscribeUserToPush example_platform subscribed_browser)) = xs"
    using xs(1) by (rule effects_of_extend)
  have l: "localStorage subscribed_browser ''pushSubscription'' = None"
    by (simp add: subscribed_browser_def fresh_browser_def)
  show ?thesis
    using ex(1,3) xs(2,3) getSubscription_subscribed l
    by (simp add: eff example_platform_facts(5))
qed


text \<open>
  C6. When the fetch of the server's public key fails, by a request error or by a
  response that does not parse, the hardcoded key is the one in use. It decodes (to 65
  bytes); with no subscription yet, \<open>pushManager.subscribe\<close> is called once, with the
  decoded hardcoded key, and what the push service grants is returned and is the
  profile's subscription; with a subscription in place, that one is returned.
\<close>

theorem subscribe_falls_back_to_hardcoded_key:
  assumes "has_serviceWorker P" and "has_PushManager P"
    and "network P ''GET'' (SERVER_URL @ ''/vapidPublicKey'') = Inl e
     \<or> (\<exists>r. network P ''GET'' (SERVER_URL @ ''/vapidPublicKey'') = Inr r
            \<and> json_parse P (resp_body r) = Inl e)"
  shows "vapid_key_in_use P = hardcoded_vapid_key
     \<and> (\<exists>key. urlBase64ToUint8Array hardcoded_vapid_key = Inr key \<and> length key = 65
          \<and> (getSubscription B = None \<longrightarrow>
                push_subscribes (effects_of B (snd (subscribeUserToPush P B))) = [key]
              \<and> (\<forall>new. push_subscribe P key = Inr new \<longrightarrow>
                    fst (subscribeUserToPush P B) = Some new
                  \<and> getSubscription (snd (subscribeUserToPush P B)) = Some new))
          \<and> (\<forall>sub. getSubscription B = Some sub \<longrightarrow>
                fst (subscribeUserToPush P B) = Some sub))"
proof -
  have k: "vapid_key_in_use P = hardcoded_vapid_key"
    using assms(3) by (rule server_key_absent)
  define key :: "nat list" where "key =
         [4, 109, 77, 126, 177, 195, 131, 1, 8, 197, 238, 0, 10, 167, 156, 126,
          205, 48, 7, 68, 246, 191, 80, 218, 76, 78, 57, 50, 12, 217, 83, 134,
          232, 190, 57, 198, 43, 12, 60, 121, 43, 254, 71, 202, 250, 241, 111,
          203, 153, 93, 214, 76, 140, 220, 112, 173, 53, 11, 97, 66, 192, 206,
          121, 8, 180]"
  have dec: "urlBase64ToUint8Array hardcoded_vapid_key = Inr key"
    unfolding key_def by (rule hardcoded_key_decodes)
  have len: "length key = 65" by (simp add: key_def)
  have dec': "urlBase64ToUint8Array (vapid_key_in_use P) = Inr key"
    using dec k by simp
  have none: "getSubscription B = None \<longrightarrow>
                push_subscribes (effects_of B (snd (subscribeUserToPush P B))) = [key]
              \<and> (\<forall>new. push_subscribe P key = Inr new \<longrightarrow>
                    fst (subscribeUserToPush P B) = Some new
                  \<and> getSubscription (snd (subscribeUserToPush P B)) = Some new)"
  proof
    assume n: "getSubscription B = None"
    then have empty: "subscriptions B = []"
      by (simp add: getSubscription_def split: list.splits)
    note nw = subscribe_new[OF assms(1,2) n dec']
    from nw(1) obtain xs where xs: "trace (snd (subscribeUserToPush P B)) = trace B @ xs"
      "push_subscribes xs = [key]" by blast
    have eff: "effects_of B (snd (subscribeUserToPush P B)) = xs"
      using xs(1) by (rule effects_of_extend)
    show "push_subscribes (effects_of B (snd (subscribeUserToPush P B))) = [key]
              \<and> (\<forall>new. push_subscribe P key = Inr new \<longrightarrow>
                    fst (subscribeUserToPush P B) = Some new
                  \<and> getSubscription (snd (subscribeUserToPush P B)) = Some new)"
      using xs(2) nw(2,3) empty by (simp add: eff getSubscription_def)
  qed
  have some: "\<forall>sub. getSubscription B = Some sub \<longrightarrow> fst (subscribeUserToPush P B) = Some sub"
    using subscribe_existing(1)[OF assms(1,2) _ dec'] by blast
  have body: "urlBase64ToUint8Array hardcoded_vapid_key = Inr key \<and> length key = 65
          \<and> (getSubscription B = None \<longrightarrow>
                push_subscribes (effects_of B (snd (subscribeUserToPush P B))) = [key]
              \<and> (\<forall>new. push_subscribe P key = Inr new \<longrightarrow>
                    fst (subscribeUserToPush P B) = Some new
                  \<and> getSubscription (snd (subscribeUserToPush P B)) = Some new))
          \<and> (\<forall>sub. getSubscription B = Some sub \<longrightarrow>
                fst (subscribeUserToPush P B) = Some sub)"
    using dec len none some by (intro conjI)
  show ?thesis
  proof (rule conjI)
    show "vapid_key_in_use P = hardcoded_vapid_key" by (rule k)
    show "\<exists>key. urlBase64ToUint8Array hardcoded_vapid_key = Inr key \<and> length key = 65
          \<and> (getSubscription B = None \<longrightarrow>
                push_subscribes (effects_of B (snd (subscribeUserToPush P B))) = [key]
              \<and> (\<forall>new. push_subscribe P key = Inr new \<longrightarrow>
                    fst (subscribeUserToPush P B) = Some new
                  \<and> getSubscription (snd (subscribeUserToPush P B)) = Some new))
          \<and> (\<forall>sub. getSubscription B = Some sub \<longrightarrow>
                fst (subscribeUserToPush P B) = Some sub)"
      using body by (rule exI)
  qed
qed

theorem subscribe_falls_back_to_hardcoded_key_witness:
  "has_serviceWorker example_platform \<and> has_PushManager example_platform
   \<and> network example_platform ''GET'' (SERVER_URL @ ''/vapidPublicKey'') = Inl NetworkError
   \<and> getSubscription fresh_browser = None
   \<and> vapid_key_in_use example_platform = hardcoded_vapid_key
   \<and> fst (subscribeUserToPush example_platform fresh_browser) = Some example_subscription"
proof -
  have h: "network example_platform ''GET'' (SERVER_URL @ ''/vapidPublicKey'') = Inl NetworkError
     \<or> (\<exists>r. network example_platform ''GET'' (SERVER_URL @ ''/vapidPublicKey'') = Inr r
            \<and> json_parse example_platform (resp_body r) = Inl NetworkError)"
    using example_platform_facts(3) by simp
  from subscribe_falls_back_to_hardcoded_key[OF example_platform_facts(1,2) h, of fresh_browser] getSubscription_fresh
  obtain key where a: "vapid_key_in_use example_platform = hardcoded_vapid_key"
    and b: "\<forall>new. push_subscribe example_platform key = Inr new \<longrightarrow>
              fst (subscribeUserToPush example_platform fresh_browser) = Some new"
    by auto
  from b example_platform_facts(4)[of key]
  have "fst (subscribeUserToPush example_platform fresh_browser) = Some example_subscription"
    by blast
  with a example_platform_facts(1,2,3) getSubscription_fresh show ?thesis by simp
qed
section \<open>Push notifications\<close>

lemma get_prop_prop_of:
  "v \<noteq> JNull \<Longrightarrow> v \<noteq> JUndefined \<Longrightarrow> get_prop v name = Inr (prop_of v name)"
  by (cases v) (simp_all add: prop_of_def)

lemma prop_of_empty: "prop_of (JObj []) name = JUndefined"
  by (simp add: prop_of_def)

lemma notification_options_value:
  assumes "v \<noteq> JNull" and "v \<noteq> JUndefined"
  shows "notification_options P v =
     Inr (js_or (prop_of v ''title'') (JStr ''Navigation Tracker''),
          JObj [(''body'', js_or (prop_of v ''body'') (JStr ''A new event was detected.'')),
                (''icon'', js_or (prop_of v ''icon'') (JStr ''/icon-192x192.png'')),
                (''badge'', js_or (prop_of v ''badge'') (JStr ''/badge.png'')),
                (''tag'', js_or (prop_of v ''tag'') (JStr ''default'')),
                (''data'', JObj [(''url'', js_or (prop_of v ''url'') (JStr ''/'')),
                                 (''timestamp'', js_or (prop_of v ''timestamp'')
                                                   (JStr (now_iso P)))])])"
  by (simp add: notification_options_def prop_or_def get_prop_prop_of[OF assms])

lemma notification_options_null: "notification_options P JNull = Inl TypeError"
  by (simp add: notification_options_def prop_or_def)

lemma notification_options_default:
  "notification_options P (JObj []) =
     Inr (JStr ''Navigation Tracker'',
          JObj [(''body'', JStr ''A new event was detected.''),
                (''icon'', JStr ''/icon-192x192.png''),
                (''badge'', JStr ''/badge.png''),
                (''tag'', JStr ''default''),
                (''data'', JObj [(''url'', JStr ''/''), (''timestamp'', JStr (now_iso P))])])"
  by (simp add: notification_options_value prop_of_empty js_or_def)

lemma sw_push_trace:
  "trace (sw_push P data B) = trace B @ push_log P data @
     (case notification_options P (push_value data) of
        Inl e \<Rightarrow> [Uncaught e]
      | Inr (title, options) \<Rightarrow> [ShowNotification title options])"
  by (simp add: sw_push_def parse_push_data_def push_log_def push_value_def Let_def
      split: option.splits sum.splits prod.splits)

lemma shown_push_log [simp]: "shown_notifications (push_log P data) = []"
  by (simp add: push_log_def split: option.splits sum.splits)

lemma sw_push_shown:
  "shown_notifications (effects_of B (sw_push P data B)) =
     (case notification_options P (push_value data) of
        Inl e \<Rightarrow> [] | Inr shown \<Rightarrow> [shown])"
  by (simp add: effects_of_extend[OF sw_push_trace] split: sum.splits prod.splits)

lemma sw_push_logs_failure:
  "ConsoleLog (''[Service Worker '' @ VERSION @ ''] '' @ ''Error parsing push data: '' @ error_text e)
     \<in> set (effects_of B (sw_push P (Some (Inl e)) B))"
  by (simp add: effects_of_extend[OF sw_push_trace] push_log_def swLog_effects_def)

text \<open>
  C7, as amended. For a push event with no payload, with a payload that does not parse,
  or with one that parses to a value other than \<open>null\<close>, the worker shows exactly one
  notification. Title, body, icon, badge and tag are the payload's top-level properties
  of those names when truthy and the defaults otherwise; the notification's
  \<open>data.url\<close> is the payload's top-level \<open>url\<close> when truthy and \<open>/\<close> otherwise.
  With no payload or a payload that does not parse every field has its default, and the
  parse failure is logged.
\<close>

theorem push_shows_notification:
  "(data = None \<or> (\<exists>e. data = Some (Inl e)) \<longrightarrow>
      shown_notifications (effects_of B (sw_push P data B)) =
        [(JStr ''Navigation Tracker'',
          JObj [(''body'', JStr ''A new event was detected.''),
                (''icon'', JStr ''/icon-192x192.png''),
                (''badge'', JStr ''/badge.png''),
                (''tag'', JStr ''default''),
                (''data'', JObj [(''url'', JStr ''/''), (''timestamp'', JStr (now_iso P))])])])
   \<and> (\<forall>e. data = Some (Inl e) \<longrightarrow>
        ConsoleLog (''[Service Worker '' @ VERSION @ ''] '' @ ''Error parsing push data: ''
                      @ error_text e)
          \<in> set (effects_of B (sw_push P data B)))
   \<and> (\<forall>v. data = Some (Inr v) \<and> v \<noteq> JNull \<and> v \<noteq> JUndefined \<longrightarrow>
        shown_notifications (effects_of B (sw_push P data B)) =
          [(js_or (prop_of v ''title'') (JStr ''Navigation Tracker''),
            JObj [(''body'', js_or (prop_of v ''body'') (JStr ''A new event was detected.'')),
                  (''icon'', js_or (prop_of v ''icon'') (JStr ''/icon-192x192.png'')),
                  (''badge'', js_or (prop_of v ''badge'') (JStr ''/badge.png'')),
                  (''tag'', js_or (prop_of v ''tag'') (JStr ''default'')),
                  (''data'', JObj [(''url'', js_or (prop_of v ''url'') (JStr ''/'')),
                                   (''timestamp'', js_or (prop_of v ''timestamp'')
                                                     (JStr (now_iso P)))])])])"
proof (intro conjI allI impI)
  assume "data = None \<or> (\<exists>e. data = Some (Inl e))"
  then have "push_value data = JObj []" by (auto simp: push_value_def)
  then show "shown_notifications (effects_of B (sw_push P data B)) =
        [(JStr ''Navigation Tracker'',
          JObj [(''body'', JStr ''A new event was detected.''),
                (''icon'', JStr ''/icon-192x192.png''),
                (''badge'', JStr ''/badge.png''),
                (''tag'', JStr ''default''),
                (''data'', JObj [(''url'', JStr ''/''), (''timestamp'', JStr (now_iso P))])])]"
    by (simp add: sw_push_shown notification_options_default)
next
  fix e assume "data = Some (Inl e)"
  then show "ConsoleLog (''[Service Worker '' @ VERSION @ ''] '' @ ''Error parsing push data: ''
                      @ error_text e)
          \<in> set (effects_of B (sw_push P data B))"
    using sw_push_logs_failure[of e B P] by simp
next
  fix v assume a: "data = Some (Inr v) \<and> v \<noteq> JNull \<and> v \<noteq> JUndefined"
  then have "push_value data = v" by (simp add: push_value_def)
  then show "shown_notifications (effects_of B (sw_push P data B)) =
          [(js_or (prop_of v ''title'') (JStr ''Navigation Tracker''),
            JObj [(''body'', js_or (prop_of v ''body'') (JStr ''A new event was detected.'')),
                  (''icon'', js_or (prop_of v ''icon'') (JStr ''/icon-192x192.png'')),
                  (''badge'', js_or (prop_of v ''badge'') (JStr ''/badge.png'')),
                  (''tag'', js_or (prop_of v ''tag'') (JStr ''default'')),
                  (''data'', JObj [(''url'', js_or (prop_of v ''url'') (JStr ''/'')),
                                   (''timestamp'', js_or (prop_of v ''timestamp'')
                                                     (JStr (now_iso P)))])])]"
    using a by (simp add: sw_push_shown notification_options_value)
qed

lemma example_payload_props:
  "prop_of example_payload ''title'' = JStr ''Sale''"
  "prop_of example_payload ''body'' = JUndefined"
  "prop_of example_payload ''icon'' = JUndefined"
  "prop_of example_payload ''badge'' = JUndefined"
  "prop_of example_payload ''tag'' = JUndefined"
  "prop_of example_payload ''url'' = JUndefined"
  "prop_of example_payload ''timestamp'' = JUndefined"
  "prop_of example_payload ''data'' = JObj [(''url'', JStr ''/promo'')]"
  "example_payload \<noteq> JNull" "example_payload \<noteq> JUndefined"
  by (simp_all add: example_payload_def prop_of_def)

theorem push_shows_notification_witness:
  "example_payload \<noteq> JNull \<and> example_payload \<noteq> JUndefined
   \<and> shown_notifications
        (effects_of fresh_browser (sw_push example_platform (Some (Inr example_payload)) fresh_browser))
       = [(JStr ''Sale'',
           JObj [(''body'', JStr ''A new event was detected.''),
                 (''icon'', JStr ''/icon-192x192.png''),
                 (''badge'', JStr ''/badge.png''),
                 (''tag'', JStr ''default''),
                 (''data'', JObj [(''url'', JStr ''/''),
                                  (''timestamp'', JStr ''2024-01-01T00:00:00.000Z'')])])]
   \<and> shown_notifications
        (effects_of fresh_browser (sw_push example_platform None fresh_browser))
       = [(JStr ''Navigation Tracker'',
           JObj [(''body'', JStr ''A new event was detected.''),
                 (''icon'', JStr ''/icon-192x192.png''),
                 (''badge'', JStr ''/badge.png''),
                 (''tag'', JStr ''default''),
                 (''data'', JObj [(''url'', JStr ''/''),
                                  (''timestamp'', JStr ''2024-01-01T00:00:00.000Z'')])])]
   \<and> shown_notifications
        (effects_of fresh_browser (sw_push example_platform (Some (Inl SyntaxError)) fresh_browser))
       = [(JStr ''Navigation Tracker'',
           JObj [(''body'', JStr ''A new event was detected.''),
                 (''icon'', JStr ''/icon-192x192.png''),
                 (''badge'', JStr ''/badge.png''),
                 (''tag'', JStr ''default''),
                 (''data'', JObj [(''url'', JStr ''/''),
                                  (''timestamp'', JStr ''2024-01-01T00:00:00.000Z'')])])]
   \<and> ConsoleLog ''[Service Worker v1] Error parsing push data: SyntaxError''
        \<in> set (effects_of fresh_browser
                  (sw_push example_platform (Some (Inl SyntaxError)) fresh_browser))"
proof -
  have n: "now_iso example_platform = ''2024-01-01T00:00:00.000Z''"
    by (simp add: example_platform_def)
  show ?thesis
    using push_shows_notification[of "Some (Inr example_payload)" fresh_browser example_platform]
      push_shows_notification[of None fresh_browser example_platform]
      push_shows_notification[of "Some (Inl SyntaxError)" fresh_browser example_platform]
    by (simp add: example_payload_props js_or_def n VERSION_def)
qed

text \<open>
  C7 as stated fails: the payload's \<open>data.url\<close> is not used (the notification opens
  \<open>/\<close>), and for the payload \<open>null\<close>, which parses, reading \<open>notificationData.title\<close>
  throws and no notification is shown.
\<close>

theorem push_ignores_nested_url_and_null_payload:
  "get_prop example_payload ''data'' = Inr (JObj [(''url'', JStr ''/promo'')])
   \<and> shown_notifications
        (effects_of fresh_browser (sw_push example_platform (Some (Inr example_payload)) fresh_browser))
       = [(JStr ''Sale'',
           JObj [(''body'', JStr ''A new event was detected.''),
                 (''icon'', JStr ''/icon-192x192.png''),
                 (''badge'', JStr ''/badge.png''),
                 (''tag'', JStr ''default''),
                 (''data'', JObj [(''url'', JStr ''/''),
                                  (''timestamp'', JStr ''2024-01-01T00:00:00.000Z'')])])]
   \<and> shown_notifications
        (effects_of fresh_browser (sw_push example_platform (Some (Inr JNull)) fresh_browser))
       = []"
proof -
  have n: "now_iso example_platform = ''2024-01-01T00:00:00.000Z''"
    by (simp add: example_platform_def)
  have a: "get_prop example_payload ''data'' = Inr (JObj [(''url'', JStr ''/promo'')])"
    by (simp add: example_payload_def)
  have b: "push_value (Some (Inr example_payload)) = example_payload"
     "push_value (Some (Inr JNull)) = JNull"
    by (simp_all add: push_value_def)
  show ?thesis
    by (simp add: a b sw_push_shown notification_options_null
        notification_options_value[OF example_payload_props(9,10)]
        example_payload_props js_or_def n)
qed

section \<open>At most one subscription\<close>


lemma ks_trans:
  "keeps_subscriptions A B \<Longrightarrow> keeps_subscriptions B C \<Longrightarrow> keeps_subscriptions A C"
  by (auto simp: keeps_subscriptions_def)


















































end
